theory Spec2Isabelle
  imports Complex_Main
begin

section \<open>JavaScript numbers\<close>

text \<open>
  The calculators of \<^verbatim>\<open>app.js\<close> compute on JavaScript numbers. A number is modelled
  as a finite value or one of the three special values that the arithmetic of the
  language produces instead of raising an error. Finite values are exact reals:
  rounding to 53 bits, overflow, underflow and the sign of zero are not modelled.
\<close>

datatype number = Fin real | PosInf | NegInf | NaN

text \<open>A count of years or months as a number.\<close>

definition num :: "nat \<Rightarrow> number" where
  "num n = Fin (real n)"

instantiation number :: "{uminus, plus, minus, times, inverse, ord}"
begin

fun uminus_number :: "number \<Rightarrow> number" where
  "uminus_number (Fin a) = Fin (- a)"
| "uminus_number PosInf = NegInf"
| "uminus_number NegInf = PosInf"
| "uminus_number NaN = NaN"

fun plus_number :: "number \<Rightarrow> number \<Rightarrow> number" where
  "plus_number (Fin a) (Fin b) = Fin (a + b)"
| "plus_number NaN y = NaN"
| "plus_number x NaN = NaN"
| "plus_number PosInf NegInf = NaN"
| "plus_number NegInf PosInf = NaN"
| "plus_number PosInf y = PosInf"
| "plus_number NegInf y = NegInf"
| "plus_number (Fin a) y = y"

definition minus_number :: "number \<Rightarrow> number \<Rightarrow> number" where
  "minus_number x y = x + (- y)"

text \<open>An infinity times a finite factor: the sign follows the factor, and zero gives NaN.\<close>

fun scale_inf :: "real \<Rightarrow> number \<Rightarrow> number" where
  "scale_inf a i = (if a = 0 then NaN else if 0 < a then i else - i)"

fun times_number :: "number \<Rightarrow> number \<Rightarrow> number" where
  "times_number (Fin a) (Fin b) = Fin (a * b)"
| "times_number NaN y = NaN"
| "times_number x NaN = NaN"
| "times_number (Fin a) y = scale_inf a y"
| "times_number x (Fin b) = scale_inf b x"
| "times_number PosInf y = y"
| "times_number NegInf y = - y"

fun divide_number :: "number \<Rightarrow> number \<Rightarrow> number" where
  "divide_number (Fin a) (Fin b) =
     (if b = 0 then (if a = 0 then NaN else if 0 < a then PosInf else NegInf)
      else Fin (a / b))"
| "divide_number NaN y = NaN"
| "divide_number x NaN = NaN"
| "divide_number (Fin a) y = Fin 0"
| "divide_number x (Fin b) = (if 0 \<le> b then x else - x)"
| "divide_number x y = NaN"

definition inverse_number :: "number \<Rightarrow> number" where
  "inverse_number x = divide (Fin 1) x"

text \<open>The comparisons \<^verbatim>\<open><=\<close> and \<^verbatim>\<open><\<close>: false as soon as one side is NaN.\<close>

fun less_eq_number :: "number \<Rightarrow> number \<Rightarrow> bool" where
  "less_eq_number (Fin a) (Fin b) = (a \<le> b)"
| "less_eq_number NaN y = False"
| "less_eq_number x NaN = False"
| "less_eq_number NegInf y = True"
| "less_eq_number x PosInf = True"
| "less_eq_number x y = False"

fun less_number :: "number \<Rightarrow> number \<Rightarrow> bool" where
  "less_number (Fin a) (Fin b) = (a < b)"
| "less_number NaN y = False"
| "less_number x NaN = False"
| "less_number PosInf y = False"
| "less_number x NegInf = False"
| "less_number x y = True"

instance ..

end

text \<open>Strict equality \<^verbatim>\<open>===\<close> on numbers: NaN equals nothing, itself included.\<close>

definition strict_eq :: "number \<Rightarrow> number \<Rightarrow> bool" where
  "strict_eq x y = (x \<noteq> NaN \<and> y \<noteq> NaN \<and> x = y)"

text \<open>
  The remainder \<^verbatim>\<open>%\<close>: the sign follows the dividend (the quotient is truncated
  towards zero).
\<close>

definition trunc :: "real \<Rightarrow> int" where
  "trunc x = (if 0 \<le> x then \<lfloor>x\<rfloor> else \<lceil>x\<rceil>)"

fun js_rem :: "number \<Rightarrow> number \<Rightarrow> number" where
  "js_rem (Fin a) (Fin b) = (if b = 0 then NaN else Fin (a - b * of_int (trunc (a / b))))"
| "js_rem (Fin a) PosInf = Fin a"
| "js_rem (Fin a) NegInf = Fin a"
| "js_rem x y = NaN"

subsection \<open>The functions of \<^verbatim>\<open>Math\<close> that the calculators call\<close>

text \<open>
  \<^verbatim>\<open>Math.pow\<close>, case by case as the language defines it. An integral exponent is a
  repeated product (or its inverse), any other exponent needs a base that is not
  negative.
\<close>

definition integral :: "real \<Rightarrow> bool" where
  "integral e = (of_int \<lfloor>e\<rfloor> = e)"

fun Math_pow :: "number \<Rightarrow> number \<Rightarrow> number" where
  "Math_pow b NaN = NaN"
| "Math_pow b (Fin e) =
     (if e = 0 then Fin 1
      else case b of
          NaN \<Rightarrow> NaN
        | PosInf \<Rightarrow> (if 0 < e then PosInf else Fin 0)
        | NegInf \<Rightarrow>
            (if 0 < e then (if integral e \<and> odd \<lfloor>e\<rfloor> then NegInf else PosInf) else Fin 0)
        | Fin x \<Rightarrow>
            (if x = 0 then (if 0 < e then Fin 0 else PosInf)
             else if integral e then Fin (x powi \<lfloor>e\<rfloor>)
             else if x < 0 then NaN
             else Fin (x powr e)))"
| "Math_pow b PosInf =
     (case b of
          NaN \<Rightarrow> NaN
        | Fin x \<Rightarrow> (if 1 < \<bar>x\<bar> then PosInf else if \<bar>x\<bar> = 1 then NaN else Fin 0)
        | _ \<Rightarrow> PosInf)"
| "Math_pow b NegInf =
     (case b of
          NaN \<Rightarrow> NaN
        | Fin x \<Rightarrow> (if 1 < \<bar>x\<bar> then Fin 0 else if \<bar>x\<bar> = 1 then NaN else PosInf)
        | _ \<Rightarrow> Fin 0)"

fun Math_log :: "number \<Rightarrow> number" where
  "Math_log (Fin x) = (if x < 0 then NaN else if x = 0 then NegInf else Fin (ln x))"
| "Math_log PosInf = PosInf"
| "Math_log NegInf = NaN"
| "Math_log NaN = NaN"

text \<open>\<^verbatim>\<open>Math.round\<close> rounds to the nearest integer, a tie towards \<open>+\<infinity>\<close>.\<close>

fun Math_round :: "number \<Rightarrow> number" where
  "Math_round (Fin x) = Fin (of_int \<lfloor>x + 1 / 2\<rfloor>)"
| "Math_round x = x"

fun Math_ceil :: "number \<Rightarrow> number" where
  "Math_ceil (Fin x) = Fin (of_int \<lceil>x\<rceil>)"
| "Math_ceil x = x"

fun Math_floor :: "number \<Rightarrow> number" where
  "Math_floor (Fin x) = Fin (of_int \<lfloor>x\<rfloor>)"
| "Math_floor x = x"

definition Math_min :: "number \<Rightarrow> number \<Rightarrow> number" where
  "Math_min x y = (if x = NaN \<or> y = NaN then NaN else if x \<le> y then x else y)"

section \<open>The calculators\<close>

text \<open>
  Amounts and rates are numbers. A duration is a count of years or months (in the
  data model of the specification a positive integer), so it is a \<open>nat\<close> and
  enters the arithmetic through \<open>num\<close>; the \<^verbatim>\<open>for\<close> loops count up to it.
\<close>

subsection \<open>SIP and lumpsum\<close>

record returns =
  futureValue :: number
  totalInvested :: number
  estimatedReturns :: number

definition calculateSIP :: "number \<Rightarrow> number \<Rightarrow> nat \<Rightarrow> returns" where
  "calculateSIP P annualRate years =
     (let r = annualRate / Fin 100 / Fin 12;
          n = num years * Fin 12;
          futureValue = P * ((Math_pow (Fin 1 + r) n - Fin 1) / r) * (Fin 1 + r);
          totalInvested = P * n;
          estimatedReturns = futureValue - totalInvested
      in \<lparr>futureValue = futureValue, totalInvested = totalInvested,
           estimatedReturns = estimatedReturns\<rparr>)"

definition calculateLumpsum :: "number \<Rightarrow> number \<Rightarrow> nat \<Rightarrow> returns" where
  "calculateLumpsum P annualRate years =
     (let r = annualRate / Fin 100;
          futureValue = P * Math_pow (Fin 1 + r) (num years);
          estimatedReturns = futureValue - P
      in \<lparr>futureValue = futureValue, totalInvested = P, estimatedReturns = estimatedReturns\<rparr>)"

definition calculateCAGR :: "number \<Rightarrow> number \<Rightarrow> nat \<Rightarrow> number" where
  "calculateCAGR beginValue endValue years =
     (Math_pow (endValue / beginValue) (Fin 1 / num years) - Fin 1) * Fin 100"

subsection \<open>Top-up SIP: a simulation year by year\<close>

text \<open>The inner loop: twelve months of one year, \<open>m\<close> counting from 0.\<close>

function month_loop :: "number \<Rightarrow> number \<Rightarrow> nat \<Rightarrow> number \<times> number \<Rightarrow> number \<times> number" where
  "month_loop monthlySIP r m s =
     (if m < 12
      then month_loop monthlySIP r (Suc m)
             (let (corpus, yearlyInvested) = s;
                  corpus = (corpus + monthlySIP) * (Fin 1 + r);
                  yearlyInvested = yearlyInvested + monthlySIP
              in (corpus, yearlyInvested))
      else s)"
  by pat_completeness auto
termination
  by (relation "measure (\<lambda>(monthlySIP, r, m, s). 12 - m)") auto

declare month_loop.simps [simp del]

record year_entry =
  year :: number
  monthlySIP :: number
  yearlyInvested :: number
  corpusAtEndOfYear :: number

record topup_returns = returns +
  yearlyBreakdown :: "year_entry list"

text \<open>
  The body of the outer loop for year \<open>y\<close>, on the variables \<^verbatim>\<open>corpus\<close>,
  \<^verbatim>\<open>totalInvested\<close> and \<^verbatim>\<open>yearlyBreakdown\<close> that the loop updates.
\<close>

type_synonym topup_state = "number \<times> number \<times> year_entry list"

definition year_body :: "number \<Rightarrow> number \<Rightarrow> number \<Rightarrow> nat \<Rightarrow> topup_state \<Rightarrow> topup_state" where
  "year_body P r topUpRate y s =
     (let (corpus, totalInvested, yearlyBreakdown) = s;
          monthlySIP = Math_round (P * Math_pow (Fin 1 + topUpRate / Fin 100) (num y - Fin 1));
          yearlyInvested = Fin 0;
          (corpus, yearlyInvested) = month_loop monthlySIP r 0 (corpus, yearlyInvested);
          totalInvested = totalInvested + yearlyInvested;
          corpus = Math_round corpus;
          yearlyBreakdown = yearlyBreakdown @
            [\<lparr>year = num y, monthlySIP = monthlySIP, yearlyInvested = yearlyInvested,
              corpusAtEndOfYear = corpus\<rparr>]
      in (corpus, totalInvested, yearlyBreakdown))"

function year_loop ::
  "number \<Rightarrow> number \<Rightarrow> number \<Rightarrow> nat \<Rightarrow> nat \<Rightarrow> topup_state \<Rightarrow> topup_state" where
  "year_loop P r topUpRate years y s =
     (if y \<le> years then year_loop P r topUpRate years (Suc y) (year_body P r topUpRate y s)
      else s)"
  by pat_completeness auto
termination
  by (relation "measure (\<lambda>(P, r, topUpRate, years, y, s). Suc years - y)") auto

declare year_loop.simps [simp del]

definition calculateTopUpSIP :: "number \<Rightarrow> number \<Rightarrow> nat \<Rightarrow> number \<Rightarrow> topup_returns" where
  "calculateTopUpSIP P annualRate years topUpRate =
     (let r = annualRate / Fin 100 / Fin 12;
          (corpus, totalInvested, yearlyBreakdown) =
             year_loop P r topUpRate years 1 (Fin 0, Fin 0, []);
          futureValue = corpus;
          estimatedReturns = futureValue - totalInvested
      in \<lparr>futureValue = futureValue, totalInvested = totalInvested,
           estimatedReturns = estimatedReturns, yearlyBreakdown = yearlyBreakdown\<rparr>)"

subsection \<open>Inflation adjustment\<close>

record inflation_result =
  inflationAdjustedValue :: number
  purchasingPowerLoss :: number

definition calculateInflationAdjusted :: "number \<Rightarrow> number \<Rightarrow> nat \<Rightarrow> inflation_result" where
  "calculateInflationAdjusted nominalValue inflationRate years =
     (let inflationAdjustedValue =
            nominalValue / Math_pow (Fin 1 + inflationRate / Fin 100) (num years);
          purchasingPowerLoss = nominalValue - inflationAdjustedValue
      in \<lparr>inflationAdjustedValue = inflationAdjustedValue,
           purchasingPowerLoss = purchasingPowerLoss\<rparr>)"

subsection \<open>STP: a simulation month by month\<close>

record stp_entry =
  month :: number
  debtCorpus :: number
  equityCorpus :: number
  totalCorpus :: number

type_synonym stp_state = "number \<times> number \<times> number \<times> stp_entry list"

text \<open>
  The body of the loop for month \<open>m\<close>, on the variables \<^verbatim>\<open>debtCorpus\<close>,
  \<^verbatim>\<open>equityCorpus\<close>, \<^verbatim>\<open>totalTransferred\<close> and \<^verbatim>\<open>breakdown\<close>.
\<close>

definition month_body :: "number \<Rightarrow> number \<Rightarrow> number \<Rightarrow> nat \<Rightarrow> stp_state \<Rightarrow> stp_state" where
  "month_body monthlyTransfer dr er m s =
     (let (debtCorpus, equityCorpus, totalTransferred, breakdown) = s;
          debtCorpus = debtCorpus * (Fin 1 + dr);
          transfer = Math_min monthlyTransfer debtCorpus;
          debtCorpus = debtCorpus - transfer;
          totalTransferred = totalTransferred + transfer;
          equityCorpus = (equityCorpus + transfer) * (Fin 1 + er);
          breakdown = breakdown @
            [\<lparr>month = num m, debtCorpus = Math_round debtCorpus,
              equityCorpus = Math_round equityCorpus,
              totalCorpus = Math_round (debtCorpus + equityCorpus)\<rparr>]
      in (debtCorpus, equityCorpus, totalTransferred, breakdown))"

function stp_loop :: "number \<Rightarrow> number \<Rightarrow> number \<Rightarrow> nat \<Rightarrow> nat \<Rightarrow> stp_state \<Rightarrow> stp_state" where
  "stp_loop monthlyTransfer dr er months m s =
     (if m \<le> months
      then stp_loop monthlyTransfer dr er months (Suc m) (month_body monthlyTransfer dr er m s)
      else s)"
  by pat_completeness auto
termination
  by (relation "measure (\<lambda>(monthlyTransfer, dr, er, months, m, s). Suc months - m)") auto

declare stp_loop.simps [simp del]

record stp_result =
  debtCorpus :: number
  equityCorpus :: number
  totalCorpus :: number
  totalTransferred :: number
  breakdown :: "stp_entry list"
  directEquityValue :: number
  debtOnlyValue :: number

definition calculateSTP :: "number \<Rightarrow> number \<Rightarrow> number \<Rightarrow> number \<Rightarrow> nat \<Rightarrow> stp_result" where
  "calculateSTP lumpSum monthlyTransfer debtRate equityRate months =
     (let dr = debtRate / Fin 100 / Fin 12;
          er = equityRate / Fin 100 / Fin 12;
          (debtCorpus, equityCorpus, totalTransferred, breakdown) =
             stp_loop monthlyTransfer dr er months 1 (lumpSum, Fin 0, Fin 0, []);
          totalCorpus = debtCorpus + equityCorpus;
          directEquityValue = lumpSum * Math_pow (Fin 1 + equityRate / Fin 100 / Fin 12) (num months);
          debtOnlyValue = lumpSum * Math_pow (Fin 1 + debtRate / Fin 100 / Fin 12) (num months)
      in \<lparr>debtCorpus = debtCorpus, equityCorpus = equityCorpus, totalCorpus = totalCorpus,
           totalTransferred = totalTransferred, breakdown = breakdown,
           directEquityValue = directEquityValue, debtOnlyValue = debtOnlyValue\<rparr>)"

subsection \<open>SWP\<close>

record swp_result =
  months :: number
  years :: number
  remainingMonths :: number
  totalWithdrawn :: number
  isIndefinite :: bool

definition calculateSWP :: "number \<Rightarrow> number \<Rightarrow> number \<Rightarrow> swp_result" where
  "calculateSWP corpus monthlyWithdrawal annualRate =
     (let r = annualRate / Fin 100 / Fin 12
      in if monthlyWithdrawal \<le> corpus * r
         then \<lparr>months = Fin 0, years = Fin 0, remainingMonths = Fin 0, totalWithdrawn = Fin 0,
                isIndefinite = True\<rparr>
         else
           (let n = (if strict_eq r (Fin 0) then corpus / monthlyWithdrawal
                     else (- Math_log (Fin 1 - (corpus * r) / monthlyWithdrawal))
                            / Math_log (Fin 1 + r));
                months = Math_ceil n;
                years = Math_floor (months / Fin 12);
                remainingMonths = js_rem months (Fin 12);
                totalWithdrawn = monthlyWithdrawal * months
            in \<lparr>months = months, years = years, remainingMonths = remainingMonths,
                 totalWithdrawn = totalWithdrawn, isIndefinite = False\<rparr>))"

text \<open>
  The number of months of the specification, on reals: the closed form of the
  annuity-depletion equation for a corpus \<open>C\<close>, a withdrawal \<open>W\<close> and a monthly rate
  \<open>r\<close>, and \<open>C / W\<close> at rate zero. The theorems compare \<^verbatim>\<open>calculateSWP\<close> with it.
\<close>

definition swp_closed_form :: "real \<Rightarrow> real \<Rightarrow> real \<Rightarrow> real" where
  "swp_closed_form C W r = (if r = 0 then C / W else - ln (1 - C * r / W) / ln (1 + r))"

subsection \<open>SWP in double precision\<close>

text \<open>
  \<^verbatim>\<open>calculateSWP\<close> above computes on exact reals. The program computes in binary64,
  where the result of every arithmetic operation is rounded to the nearest double, a
  tie to the even significand. On inputs such as (120000, 1500, 15) and
  (1000, 1005, 6) the rounding decides the comparison and the ceiling in
  \<^verbatim>\<open>calculateSWP\<close>, so the function is given a second time with the rounding written
  out. The exponent range is left unbounded: overflow and subnormal numbers are not
  modelled.
\<close>

text \<open>The binade of \<open>x\<close> is the exponent \<open>e\<close> with \<open>2\<^sup>e \<le> \<bar>x\<bar> < 2\<^sup>e\<^sup>+\<^sup>1\<close>.\<close>

definition binade :: "real \<Rightarrow> int" where
  "binade x = \<lfloor>log 2 \<bar>x\<bar>\<rfloor>"

text \<open>The distance between neighbouring doubles there: a significand has 53 bits.\<close>

definition ulp :: "real \<Rightarrow> real" where
  "ulp x = 2 powi (binade x - 52)"

text \<open>Rounding to the nearest integer, a tie to the even one.\<close>

definition round_even :: "real \<Rightarrow> int" where
  "round_even x =
     (if x - of_int \<lfloor>x\<rfloor> < 1 / 2 then \<lfloor>x\<rfloor>
      else if 1 / 2 < x - of_int \<lfloor>x\<rfloor> then \<lfloor>x\<rfloor> + 1
      else if even \<lfloor>x\<rfloor> then \<lfloor>x\<rfloor> else \<lfloor>x\<rfloor> + 1)"

definition double :: "real \<Rightarrow> real" where
  "double x = (if x = 0 then 0 else of_int (round_even (x / ulp x)) * ulp x)"

fun rnd :: "number \<Rightarrow> number" where
  "rnd (Fin x) = Fin (double x)"
| "rnd x = x"

text \<open>
  \<^verbatim>\<open>calculateSWP\<close> with every quotient, product, sum and difference rounded.
  \<^verbatim>\<open>Math.ceil\<close>, \<^verbatim>\<open>Math.floor\<close> and \<^verbatim>\<open>%\<close> are exact on doubles. \<^verbatim>\<open>Math.log\<close> is
  approximated by the runtime, which the language leaves free in the last bits: it is
  the parameter \<open>log64\<close>.
\<close>

definition calculateSWP_binary64 ::
  "(number \<Rightarrow> number) \<Rightarrow> number \<Rightarrow> number \<Rightarrow> number \<Rightarrow> swp_result" where
  "calculateSWP_binary64 log64 corpus monthlyWithdrawal annualRate =
     (let r = rnd (rnd (annualRate / Fin 100) / Fin 12)
      in if monthlyWithdrawal \<le> rnd (corpus * r)
         then \<lparr>months = Fin 0, years = Fin 0, remainingMonths = Fin 0, totalWithdrawn = Fin 0,
                isIndefinite = True\<rparr>
         else
           (let n = (if strict_eq r (Fin 0) then rnd (corpus / monthlyWithdrawal)
                     else rnd ((- log64 (rnd (Fin 1 - rnd (rnd (corpus * r) / monthlyWithdrawal))))
                                 / log64 (rnd (Fin 1 + r))));
                months = Math_ceil n;
                years = Math_floor (rnd (months / Fin 12));
                remainingMonths = js_rem months (Fin 12);
                totalWithdrawn = rnd (monthlyWithdrawal * months)
            in \<lparr>months = months, years = years, remainingMonths = remainingMonths,
                 totalWithdrawn = totalWithdrawn, isIndefinite = False\<rparr>))"

subsection \<open>Formatting\<close>

text \<open>
  Modelled from the spec: \<^verbatim>\<open>toLocaleString("en-IN")\<close> is a method of the language
  runtime, not of the repository. \<^verbatim>\<open>formatINR\<close> calls it on the whole number that
  \<^verbatim>\<open>Math.round\<close> returns, where it writes the decimal digits grouped by the Indian
  numbering convention, "2-digit groups after the first 3 digits from the right", a
  negative number after a minus sign. The whole number is given by its sign and its
  magnitude, as a double holds it: \<^verbatim>\<open>Math.round\<close> returns \<open>-0\<close> between \<open>-1/2\<close> and 0,
  which is written with its sign. The amounts are those below \<open>2\<^sup>5\<^sup>3\<close>, where every whole
  number is a double.
\<close>

definition digit :: "nat \<Rightarrow> char" where
  "digit d = ''0123456789'' ! d"

fun digits :: "nat \<Rightarrow> string" where
  "digits n = (if n < 10 then [digit n] else digits (n div 10) @ [digit (n mod 10)])"

declare digits.simps [simp del]

text \<open>
  Commas after every two digits, on the digits read from the right; so
  \<open>rev (pairs (rev ds))\<close> is \<open>ds\<close> with a comma before every pair of digits but the
  leftmost group.
\<close>

fun pairs :: "string \<Rightarrow> string" where
  "pairs (a # b # c # cs) = a # b # CHR '','' # pairs (c # cs)"
| "pairs cs = cs"

definition indian_grouping :: "string \<Rightarrow> string" where
  "indian_grouping ds =
     (let r = rev ds
      in if length r \<le> 3 then ds else rev (take 3 r @ CHR '','' # pairs (drop 3 r)))"

definition toLocaleString_en_IN :: "bool \<Rightarrow> nat \<Rightarrow> string" where
  "toLocaleString_en_IN negative n = (if negative then ''-'' else []) @ indian_grouping (digits n)"

text \<open>
  \<^verbatim>\<open>formatINR\<close> on a finite amount. \<^verbatim>\<open>Math.round(value)\<close> has the sign of \<^verbatim>\<open>value\<close> and
  the magnitude of \<open>\<lfloor>value + 1 / 2\<rfloor>\<close> (a tie goes up, as in \<open>Math_round\<close>).
\<close>

definition formatINR :: "real \<Rightarrow> string" where
  "formatINR value = ''Rs. '' @ toLocaleString_en_IN (value < 0) (nat \<bar>\<lfloor>value + 1 / 2\<rfloor>\<bar>)"

text \<open>
  \<^verbatim>\<open>formatPercent\<close> concatenates its argument and \<^verbatim>\<open>"%"\<close>. The conversion of the
  argument to a string that \<^verbatim>\<open>+\<close> applies first belongs to the language; it is the
  parameter \<open>ToString\<close>.
\<close>

definition formatPercent :: "('a \<Rightarrow> string) \<Rightarrow> 'a \<Rightarrow> string" where
  "formatPercent ToString value = ToString value @ ''%''"

section \<open>Properties\<close>

subsection \<open>Exponents that are counts\<close>

lemma Math_pow_num: "Math_pow (Fin x) (num n) = Fin (x ^ n)"
  by (auto simp: num_def integral_def power_int_def)

lemma num_times_12: "num y * Fin 12 = num (12 * y)"
  by (simp add: num_def)

subsection \<open>SIP\<close>

text \<open>
  With a rate other than zero \<^verbatim>\<open>calculateSIP\<close> returns the annuity-due formula,
  \<open>P \<times> n\<close> as the total invested and their difference as the returns.
\<close>

lemma calculateSIP_finite:
  assumes "a \<noteq> 0"
  shows "calculateSIP (Fin P) (Fin a) y =
    \<lparr>futureValue =
       Fin (P * (((1 + a / 100 / 12) ^ (12 * y) - 1) / (a / 100 / 12)) * (1 + a / 100 / 12)),
     totalInvested = Fin (P * (12 * real y)),
     estimatedReturns =
       Fin (P * (((1 + a / 100 / 12) ^ (12 * y) - 1) / (a / 100 / 12)) * (1 + a / 100 / 12)
            - P * (12 * real y))\<rparr>"
  using assms
  by (simp add: calculateSIP_def Let_def num_times_12 Math_pow_num minus_number_def)
     (simp add: num_def)

text \<open>
  At rate zero the monthly rate \<open>r\<close> is zero, the quotient is \<open>0 / 0\<close>, and the
  future value and the returns are NaN for every contribution and duration.
\<close>

lemma calculateSIP_rate_zero:
  "calculateSIP (Fin P) (Fin 0) y =
     \<lparr>futureValue = NaN, totalInvested = Fin (P * (12 * real y)), estimatedReturns = NaN\<rparr>"
  by (simp add: calculateSIP_def Let_def num_times_12 Math_pow_num minus_number_def)
     (simp add: num_def)

text \<open>
  Claim C1 asks for \<open>futureValue = P \<times> n\<close> at annual rate 0. \<^verbatim>\<open>calculateSIP\<close> has no
  branch for that rate (\<^verbatim>\<open>calculateSWP\<close> has one, \<^verbatim>\<open>r === 0\<close>): a monthly contribution
  of 5000 over 10 years at rate 0 gives the future value NaN, where the claim says
  600000. The total invested is 600000 as claimed.
\<close>

theorem calculateSIP_zero_rate_is_NaN:
  "calculateSIP (Fin 5000) (Fin 0) 10 =
     \<lparr>futureValue = NaN, totalInvested = Fin 600000, estimatedReturns = NaN\<rparr>"
  by (simp add: calculateSIP_def Let_def num_times_12 Math_pow_num minus_number_def)
     (simp add: num_def)

subsection \<open>SWP\<close>

lemma floor_div_12: "\<lfloor>real_of_int k / 12\<rfloor> = k div 12"
  using floor_divide_of_int_eq [of k 12, where ?'a = real] by simp

lemma js_rem_12:
  assumes "0 \<le> k"
  shows "js_rem (Fin (of_int k)) (Fin 12) = Fin (of_int (k mod 12))"
proof -
  have "trunc (real_of_int k / 12) = k div 12"
    using assms by (simp add: trunc_def floor_div_12)
  moreover have "real_of_int k - 12 * real_of_int (k div 12) = real_of_int (k mod 12)"
  proof -
    have "real_of_int (k mod 12) = real_of_int (k - 12 * (k div 12))"
      by (simp add: minus_mult_div_eq_mod)
    also have "\<dots> = real_of_int k - 12 * real_of_int (k div 12)"
      by simp
    finally show ?thesis by simp
  qed
  ultimately show ?thesis by simp
qed

text \<open>Where the withdrawal exceeds the monthly interest, the closed form is positive.\<close>

lemma swp_closed_form_pos:
  assumes "0 < C" "0 < W" "0 \<le> r" "C * r < W"
  shows "0 < swp_closed_form C W r"
proof (cases "r = 0")
  case True
  then show ?thesis using assms by (simp add: swp_closed_form_def)
next
  case False
  then have r: "0 < r" using assms by simp
  have q: "0 < C * r / W" "C * r / W < 1" using assms r by simp_all
  then have "ln (1 - C * r / W) < 0" by simp
  moreover have "0 < ln (1 + r)" using r by simp
  ultimately show ?thesis using False by (simp add: swp_closed_form_def divide_neg_pos)
qed

text \<open>On such inputs the expression for \<^verbatim>\<open>n\<close> in the code is finite and is the closed form.\<close>

lemma swp_closed_form_value:
  assumes "0 < C" "0 < W" "0 \<le> r" "C * r < W"
  shows "(if strict_eq (Fin r) (Fin 0) then Fin C / Fin W
          else (- Math_log (Fin 1 - (Fin C * Fin r) / Fin W)) / Math_log (Fin 1 + Fin r))
         = Fin (swp_closed_form C W r)"
proof (cases "r = 0")
  case True
  then show ?thesis using assms by (simp add: swp_closed_form_def strict_eq_def)
next
  case False
  then have r: "0 < r" using assms by simp
  have q: "0 < C * r / W" "C * r / W < 1" using assms r by simp_all
  have "0 < ln (1 + r)" using r by simp
  then show ?thesis using False q assms
    by (simp add: swp_closed_form_def strict_eq_def minus_number_def)
qed

lemma calculateSWP_finite:
  assumes "0 < C" "0 < W" "0 \<le> a" "C * (a / 1200) < W"
  shows "calculateSWP (Fin C) (Fin W) (Fin a) =
     \<lparr>months = Fin (of_int \<lceil>swp_closed_form C W (a / 1200)\<rceil>),
      years = Fin (of_int (\<lceil>swp_closed_form C W (a / 1200)\<rceil> div 12)),
      remainingMonths = Fin (of_int (\<lceil>swp_closed_form C W (a / 1200)\<rceil> mod 12)),
      totalWithdrawn = Fin (W * of_int \<lceil>swp_closed_form C W (a / 1200)\<rceil>),
      isIndefinite = False\<rparr>"
proof -
  have r: "Fin a / Fin 100 / Fin 12 = Fin (a / 1200)" by simp
  have a: "0 \<le> a / 1200" using assms by simp
  have pos: "0 < swp_closed_form C W (a / 1200)" using swp_closed_form_pos [OF assms(1,2) a assms(4)] .
  then have k: "0 \<le> \<lceil>swp_closed_form C W (a / 1200)\<rceil>" by linarith
  have nle: "\<not> Fin W \<le> Fin C * Fin (a / 1200)" using assms by simp
  show ?thesis
    unfolding calculateSWP_def Let_def r swp_closed_form_value [OF assms(1,2) a assms(4)]
    using nle by (simp add: js_rem_12 [OF k] floor_div_12 del: js_rem.simps)
qed

lemma calculateSWP_indefinite:
  assumes "W \<le> C * (a / 1200)"
  shows "calculateSWP (Fin C) (Fin W) (Fin a) =
     \<lparr>months = Fin 0, years = Fin 0, remainingMonths = Fin 0, totalWithdrawn = Fin 0,
      isIndefinite = True\<rparr>"
  using assms by (simp add: calculateSWP_def Let_def)




subsection \<open>SWP in double precision\<close>

text \<open>A double is found from its binade and the nearest significand.\<close>

lemma two_powr_int: "(2::real) powr (real_of_int k) = 2 powi k"
  by (simp add: powr_real_of_int')

lemma binade_eq:
  assumes "2 powi e \<le> \<bar>x\<bar>" "\<bar>x\<bar> < 2 powi (e + 1)"
  shows "binade x = e"
proof -
  have "0 < (2::real) powi e" by simp
  then have pos: "0 < \<bar>x\<bar>" using assms(1) by linarith
  have "2 powr (real_of_int e) \<le> \<bar>x\<bar>" using assms(1) by (simp add: powr_real_of_int')
  then have lo: "real_of_int e \<le> log 2 \<bar>x\<bar>" using pos by (simp add: le_log_iff)
  have "\<bar>x\<bar> < 2 powr (real_of_int (e + 1))" using assms(2) by (simp only: two_powr_int)
  then have hi: "log 2 \<bar>x\<bar> < real_of_int e + 1" using pos by (simp add: log_less_iff)
  from lo hi show ?thesis unfolding binade_def by linarith
qed

lemma binade_bounds:
  assumes "x \<noteq> 0"
  shows "2 powi (binade x) \<le> \<bar>x\<bar>" "\<bar>x\<bar> < 2 powi (binade x + 1)"
proof -
  have pos: "0 < \<bar>x\<bar>" using assms by simp
  have "real_of_int (binade x) \<le> log 2 \<bar>x\<bar>" unfolding binade_def by simp
  then have "2 powr (real_of_int (binade x)) \<le> \<bar>x\<bar>" using pos by (simp add: le_log_iff)
  then show "2 powi (binade x) \<le> \<bar>x\<bar>" by (simp add: powr_real_of_int')
  have "log 2 \<bar>x\<bar> < real_of_int (binade x + 1)" unfolding binade_def by simp
  then have "\<bar>x\<bar> < 2 powr (real_of_int (binade x + 1))" using pos by (simp add: log_less_iff)
  then show "\<bar>x\<bar> < 2 powi (binade x + 1)" by (simp only: two_powr_int)
qed

lemma round_even_near:
  assumes "\<bar>y - of_int m\<bar> < 1 / 2"
  shows "round_even y = m"
proof -
  consider "of_int m \<le> y" | "y < of_int m" by linarith
  then show ?thesis
  proof cases
    case 1
    then have "\<lfloor>y\<rfloor> = m" using assms by (intro floor_unique) (simp_all add: abs_if split: if_splits)
    then show ?thesis using assms 1 by (simp add: round_even_def)
  next
    case 2
    then have f: "\<lfloor>y\<rfloor> = m - 1" using assms by (intro floor_unique) (simp_all add: abs_if split: if_splits)
    then show ?thesis using assms 2 by (simp add: round_even_def)
  qed
qed

lemma round_even_error: "\<bar>of_int (round_even y) - y\<bar> \<le> 1 / 2"
  unfolding round_even_def by (simp; linarith)

lemma double_near:
  assumes "2 powi e \<le> \<bar>x\<bar>" "\<bar>x\<bar> < 2 powi (e + 1)"
    and "\<bar>x - of_int m * 2 powi (e - 52)\<bar> < 2 powi (e - 52) / 2"
  shows "double x = of_int m * 2 powi (e - 52)"
proof -
  have e: "binade x = e" using assms(1,2) by (rule binade_eq)
  have "0 < (2::real) powi e" by simp
  then have "0 < \<bar>x\<bar>" using assms(1) by linarith
  then have x: "x \<noteq> 0" by simp
  have u: "0 < (2::real) powi (e - 52)" by simp
  have "x / 2 powi (e - 52) - of_int m = (x - of_int m * 2 powi (e - 52)) / 2 powi (e - 52)"
    using u by (simp add: field_simps)
  then have "\<bar>x / 2 powi (e - 52) - of_int m\<bar> = \<bar>x - of_int m * 2 powi (e - 52)\<bar> / 2 powi (e - 52)"
    using u by (simp add: abs_divide)
  also have "\<dots> < 1 / 2" using assms(3) u by (simp add: field_simps)
  finally have "round_even (x / 2 powi (e - 52)) = m" by (rule round_even_near)
  then show ?thesis using x by (simp add: double_def ulp_def e)
qed

text \<open>Rounding moves a number by at most half a unit in the last place.\<close>

lemma double_error:
  assumes "x \<noteq> 0"
  shows "\<bar>double x - x\<bar> \<le> \<bar>x\<bar> / 2 ^ 53"
proof -
  have u: "0 < ulp x" by (simp add: ulp_def)
  have "double x - x = (of_int (round_even (x / ulp x)) - x / ulp x) * ulp x"
    using assms u by (simp add: double_def field_simps)
  then have "\<bar>double x - x\<bar> = \<bar>of_int (round_even (x / ulp x)) - x / ulp x\<bar> * ulp x"
    using u by (simp add: abs_mult)
  also have "\<dots> \<le> 1 / 2 * ulp x"
    using round_even_error [of "x / ulp x"] u by (intro mult_right_mono) simp_all
  also have "ulp x = 2 powi (binade x) / 2 ^ 52"
    by (simp add: ulp_def power_int_diff)
  also have "1 / 2 * (2 powi (binade x) / 2 ^ 52) \<le> 1 / 2 * (\<bar>x\<bar> / 2 ^ 52)"
    using binade_bounds(1) [OF assms] by (simp add: divide_right_mono)
  finally show ?thesis by simp
qed

text \<open>
  The guard of \<^verbatim>\<open>calculateSWP\<close> at rate 15 and corpus 120000: \<open>15 / 100\<close> rounds down,
  the quotient by 12 rounds down again, and the product with 120000 stays below 1500.
\<close>

lemma swp_15_guard: "double (120000 * double (double (15 / 100) / 12)) < 1500"
proof -
  define a :: real where "a = 5404319552844595 / 2 ^ 55"
  define r :: real where "r = 7205759403792793 / 2 ^ 59"
  define p :: real where "p = 6597069766655999 / 2 ^ 42"
  have a: "double (15 / 100) = a"
    using double_near [of "-3" "15 / 100" 5404319552844595]
    by (simp add: a_def power_int_minus field_simps)
  have r: "double (a / 12) = r"
    using double_near [of "-7" "a / 12" 7205759403792793]
    by (simp add: a_def r_def power_int_minus field_simps)
  have p: "double (120000 * r) = p"
    using double_near [of 10 "120000 * r" 6597069766655999]
    by (simp add: r_def p_def power_int_minus field_simps)
  have "p < 1500" by (simp add: p_def)
  then show ?thesis using a r p by simp
qed

text \<open>
  Claim C4 has the indefinite result exactly when \<open>W \<le> C \<times> r\<close> with \<open>r = rate / 1200\<close>.
  In double precision \<^verbatim>\<open>calculateSWP\<close> misses the boundary. For a corpus of 120000 at
  rate 15 and a withdrawal of 1500 the monthly interest is the withdrawal,
  \<open>1500 \<le> 120000 \<times> (15 / 1200)\<close>, and the plan is indefinite as claimed when the
  arithmetic is exact; with every operation rounded, \<^verbatim>\<open>corpus * r\<close> is below 1500 and
  the result is a finite plan, whatever \<^verbatim>\<open>Math.log\<close> returns.
\<close>

theorem calculateSWP_boundary_in_binary64:
  "\<not> isIndefinite (calculateSWP_binary64 log64 (Fin 120000) (Fin 1500) (Fin 15))
   \<and> (1500::real) \<le> 120000 * (15 / 1200)
   \<and> isIndefinite (calculateSWP (Fin 120000) (Fin 1500) (Fin 15))"
proof -
  have "\<not> isIndefinite (calculateSWP_binary64 log64 (Fin 120000) (Fin 1500) (Fin 15))"
    using swp_15_guard by (simp add: calculateSWP_binary64_def Let_def)
  then show ?thesis by (simp add: calculateSWP_indefinite)
qed


text \<open>
  The quotient of two logarithms that the runtime computes to a relative error \<open>e\<close>,
  between bounds that are rational in the arguments.
\<close>

lemma log_ratio_lower:
  fixes z w y1 y2 e :: real
  assumes z: "0 < z" and w: "1 < w" and zw: "z * w < 1"
    and y1: "\<bar>y1 - ln z\<bar> \<le> \<bar>ln z\<bar> * e" and y2: "\<bar>y2 - ln w\<bar> \<le> \<bar>ln w\<bar> * e"
    and e: "0 \<le> e" "e < 1"
  shows "(1 + (1 - z * w) / (w - 1)) * ((1 - e) / (1 + e)) \<le> - y1 / y2"
proof -
  have B: "0 < ln w" using w by simp
  have Bw: "ln w \<le> w - 1" using w by (intro ln_le_minus_one) simp
  have "0 < z * w" using z w by simp
  then have "ln (z * w) \<le> z * w - 1" by (rule ln_le_minus_one)
  then have A: "ln w + (1 - z * w) \<le> - ln z" using z w by (simp add: ln_mult)
  have eta: "0 < 1 - z * w" using zw by simp
  have Apos: "0 < - ln z" using A B eta by linarith
  have y1': "- ln z * (1 - e) \<le> - y1" using y1 Apos by (simp add: abs_if algebra_simps split: if_splits)
  have y2': "y2 \<le> ln w * (1 + e)" "ln w * (1 - e) \<le> y2"
    using y2 B by (simp_all add: abs_if algebra_simps split: if_splits)
  have "0 < ln w * (1 - e)" using B e by (intro mult_pos_pos) simp_all
  then have y2pos: "0 < y2" using y2'(2) by linarith
  have "(1 + (1 - z * w) / (w - 1)) * ((1 - e) / (1 + e))
      \<le> (1 + (1 - z * w) / ln w) * ((1 - e) / (1 + e))"
    using B Bw eta e w by (intro mult_right_mono add_left_mono divide_left_mono) simp_all
  also have "\<dots> = ((ln w + (1 - z * w)) * (1 - e)) / (ln w * (1 + e))"
    using B e by (simp add: field_simps)
  also have "\<dots> \<le> (- ln z * (1 - e)) / (ln w * (1 + e))"
    using A B e by (intro divide_right_mono mult_right_mono) simp_all
  also have "\<dots> \<le> - y1 / y2"
  proof (rule frac_le)
    have "0 \<le> - ln z * (1 - e)" using Apos e by (intro mult_nonneg_nonneg) simp_all
    then show "0 \<le> - y1" using y1' by linarith
    show "- ln z * (1 - e) \<le> - y1" by (rule y1')
    show "0 < y2" by (rule y2pos)
    show "y2 \<le> ln w * (1 + e)" by (rule y2'(1))
  qed
  finally show ?thesis .
qed

lemma log_ratio_upper:
  fixes z w y1 y2 e :: real
  assumes z: "0 < z" "z < 1" and w: "1 < w"
    and y1: "\<bar>y1 - ln z\<bar> \<le> \<bar>ln z\<bar> * e" and y2: "\<bar>y2 - ln w\<bar> \<le> \<bar>ln w\<bar> * e"
    and e: "0 \<le> e" "e < 1"
  shows "- y1 / y2 \<le> ((1 - z) / z * (1 + e)) / ((w - 1) / w * (1 - e))"
proof -
  have B: "0 < ln w" using w by simp
  have Apos: "0 < - ln z" using z by simp
  have "ln (1 / z) \<le> 1 / z - 1" using z by (intro ln_le_minus_one) simp
  then have A: "- ln z \<le> (1 - z) / z" using z by (simp add: ln_div field_simps)
  have "ln (1 / w) \<le> 1 / w - 1" using w by (intro ln_le_minus_one) simp
  then have Bw: "(w - 1) / w \<le> ln w" using w by (simp add: ln_div field_simps)
  have Bw0: "0 < (w - 1) / w" using w by simp
  have y1': "- y1 \<le> - ln z * (1 + e)" using y1 Apos by (simp add: abs_if algebra_simps split: if_splits)
  have y2': "ln w * (1 - e) \<le> y2"
    using y2 B by (simp_all add: abs_if algebra_simps split: if_splits)
  have lo: "0 < (w - 1) / w * (1 - e)" using Bw0 e by (intro mult_pos_pos) simp_all
  have "(w - 1) / w * (1 - e) \<le> ln w * (1 - e)" using Bw e by (intro mult_right_mono) simp_all
  then have den: "(w - 1) / w * (1 - e) \<le> y2" using y2' by linarith
  have y2pos: "0 < y2" using lo den by linarith
  have num: "- y1 \<le> (1 - z) / z * (1 + e)"
  proof -
    have "- ln z * (1 + e) \<le> (1 - z) / z * (1 + e)" using A e by (intro mult_right_mono) simp_all
    then show ?thesis using y1' by linarith
  qed
  show ?thesis
  proof (cases "0 \<le> - y1")
    case True
    then show ?thesis using num lo den by (intro frac_le) simp_all
  next
    case False
    then have "- y1 / y2 \<le> 0" using y2pos by (simp add: divide_nonpos_pos)
    moreover have "0 \<le> ((1 - z) / z * (1 + e)) / ((w - 1) / w * (1 - e))"
      using z w e by simp
    ultimately show ?thesis by linarith
  qed
qed

lemma swp_closed_form_1005: "swp_closed_form 1000 1005 (6 / 1200) = 1"
proof -
  have "ln (200 / 201 :: real) = - ln (201 / 200)"
    by (simp add: ln_div)
  moreover have "ln (201 / 200 :: real) \<noteq> 0" by simp
  ultimately show ?thesis by (simp add: swp_closed_form_def)
qed

text \<open>A quotient between such bounds rounds to a double in \<open>(1, 2]\<close>.\<close>

lemma ceiling_double:
  assumes "1 < lo * (1 - 1 / 2 ^ 53)" "hi * (1 + 1 / 2 ^ 53) \<le> 2" "lo \<le> t" "t \<le> hi"
  shows "\<lceil>double t\<rceil> = 2"
proof -
  have lo: "0 < lo"
  proof (rule ccontr)
    assume "\<not> 0 < lo"
    then have "lo * (1 - 1 / 2 ^ 53) \<le> 0" by (intro mult_nonpos_nonneg) simp_all
    then show False using assms(1) by simp
  qed
  then have t: "0 < t" using assms(3) by simp
  have err: "\<bar>double t - t\<bar> \<le> t / 2 ^ 53" using double_error [of t] t by simp
  have "lo * (1 - 1 / 2 ^ 53) \<le> t * (1 - 1 / 2 ^ 53)"
    using assms(3) by (intro mult_right_mono) simp_all
  moreover have "t * (1 + 1 / 2 ^ 53) \<le> hi * (1 + 1 / 2 ^ 53)"
    using assms(4) by (intro mult_right_mono) simp_all
  ultimately have "1 < double t" "double t \<le> 2"
    using err assms(1,2) by (simp_all add: abs_if algebra_simps split: if_splits)
  then show ?thesis by (simp add: ceiling_eq_iff)
qed

text \<open>
  Claim C3 has \<open>months = \<lceil>n\<rceil>\<close> for the closed form \<open>n\<close>. In double precision
  \<^verbatim>\<open>calculateSWP\<close> misses it. A corpus of 1000 at rate 6 with a withdrawal of 1005 is
  used up by the first withdrawal: the closed form is exactly 1, so the claim gives
  1 month and 1005 withdrawn, and so does the exact arithmetic. With every operation
  rounded, and any \<^verbatim>\<open>Math.log\<close> of relative error at most \<open>2\<^sup>-\<^sup>4\<^sup>8\<close>, the computed \<open>n\<close>
  is above 1 and the result is 2 months and 2010 withdrawn.
\<close>

theorem calculateSWP_ceiling_in_binary64:
  assumes acc: "\<forall>x. 0 < x \<longrightarrow> (\<exists>y. log64 (Fin x) = Fin y \<and> \<bar>y - ln x\<bar> \<le> \<bar>ln x\<bar> / 2 ^ 48)"
  shows "calculateSWP_binary64 log64 (Fin 1000) (Fin 1005) (Fin 6) =
           \<lparr>months = Fin 2, years = Fin 0, remainingMonths = Fin 2, totalWithdrawn = Fin 2010,
            isIndefinite = False\<rparr>
       \<and> \<lceil>swp_closed_form 1000 1005 (6 / 1200)\<rceil> = 1
       \<and> calculateSWP (Fin 1000) (Fin 1005) (Fin 6) =
           \<lparr>months = Fin 1, years = Fin 0, remainingMonths = Fin 1, totalWithdrawn = Fin 1005,
            isIndefinite = False\<rparr>"
proof -
  define a :: real where "a = 8646911284551352 / 2 ^ 57"
  define r :: real where "r = 5764607523034235 / 2 ^ 60"
  define q :: real where "q = 5735927883616154 / 2 ^ 60"
  define z :: real where "z = 8962387318150241 / 2 ^ 53"
  define w :: real where "w = 4526117625507348 / 2 ^ 52"
  define s :: real where "s = 6004799503160661 / 2 ^ 55"
  have a: "double (6 / 100) = a"
    using double_near [of "-5" "6 / 100" 8646911284551352]
    by (simp add: a_def power_int_minus field_simps)
  have r: "double (a / 12) = r"
    using double_near [of "-8" "a / 12" 5764607523034235]
    by (simp add: a_def r_def power_int_minus field_simps)
  have cr: "double (1000 * r) = 5"
    using double_near [of 2 "1000 * r" 5629499534213120]
    by (simp add: r_def power_int_minus field_simps)
  have q: "double (5 / 1005) = q"
    using double_near [of "-8" "5 / 1005" 5735927883616154]
    by (simp add: q_def power_int_minus field_simps)
  have z: "double (1 - q) = z"
    using double_near [of "-1" "1 - q" 8962387318150241]
    by (simp add: q_def z_def power_int_minus field_simps)
  have w: "double (1 + r) = w"
    using double_near [of 0 "1 + r" 4526117625507348]
    by (simp add: r_def w_def power_int_minus field_simps)
  have tw: "double 2010 = 2010"
    using double_near [of 10 2010 8840073487319040]
    by (simp add: power_int_minus field_simps)
  have s: "double (2 / 12) = s"
    using double_near [of "-3" "2 / 12" 6004799503160661]
    by (simp add: s_def power_int_minus field_simps)
  have s0: "\<lfloor>s\<rfloor> = 0" by (simp add: s_def floor_eq_iff)
  have rne: "r \<noteq> 0" by (simp add: r_def)
  have zpos: "0 < z" "z < 1" and wpos: "1 < w" and zw: "z * w < 1"
    by (simp_all add: z_def w_def)
  obtain y1 where y1: "log64 (Fin z) = Fin y1" "\<bar>y1 - ln z\<bar> \<le> \<bar>ln z\<bar> * (1 / 2 ^ 48)"
    using acc zpos(1) by force
  obtain y2 where y2: "log64 (Fin w) = Fin y2" "\<bar>y2 - ln w\<bar> \<le> \<bar>ln w\<bar> * (1 / 2 ^ 48)"
    using acc wpos by force
  have e: "0 \<le> (1 / 2 ^ 48 :: real)" "(1 / 2 ^ 48 :: real) < 1" by simp_all
  define lo :: real where "lo = (1 + (1 - z * w) / (w - 1)) * ((1 - 1 / 2 ^ 48) / (1 + 1 / 2 ^ 48))"
  define hi :: real where "hi = ((1 - z) / z * (1 + 1 / 2 ^ 48)) / ((w - 1) / w * (1 - 1 / 2 ^ 48))"
  have lo: "lo \<le> - y1 / y2"
    unfolding lo_def using log_ratio_lower [OF zpos(1) wpos zw y1(2) y2(2) e] .
  have hi: "- y1 / y2 \<le> hi"
    unfolding hi_def using log_ratio_upper [OF zpos wpos y1(2) y2(2) e] .
  have lo1: "1 < lo * (1 - 1 / 2 ^ 53)" by (simp add: lo_def z_def w_def)
  have hi2: "hi * (1 + 1 / 2 ^ 53) \<le> 2" by (simp add: hi_def z_def w_def)
  have n: "\<lceil>double (- y1 / y2)\<rceil> = 2"
    using lo1 hi2 lo hi by (rule ceiling_double)
  have "0 < lo" by (simp add: lo_def z_def w_def)
  then have y2ne: "y2 \<noteq> 0" using lo by auto
  have first: "calculateSWP_binary64 log64 (Fin 1000) (Fin 1005) (Fin 6) =
           \<lparr>months = Fin 2, years = Fin 0, remainingMonths = Fin 2, totalWithdrawn = Fin 2010,
            isIndefinite = False\<rparr>"
  proof -
    have r_num: "rnd (rnd (Fin 6 / Fin 100) / Fin 12) = Fin r"
      using a r by simp
    have cr_num: "rnd (Fin 1000 * Fin r) = Fin 5"
      using cr by simp
    have z_num: "rnd (Fin 1 - rnd (Fin 5 / Fin 1005)) = Fin z"
      using q z by (simp add: minus_number_def)
    have w_num: "rnd (Fin 1 + Fin r) = Fin w"
      using w by simp
    have n_num: "rnd ((- log64 (Fin z)) / log64 (Fin w)) = Fin (double (- y1 / y2))"
      using y1(1) y2(1) y2ne by simp
    have guard: "\<not> Fin 1005 \<le> Fin 5" "\<not> strict_eq (Fin r) (Fin 0)"
      using rne by (simp_all add: strict_eq_def)
    show ?thesis
      unfolding calculateSWP_binary64_def Let_def r_num cr_num z_num w_num n_num
      using guard n s s0 tw by (simp add: trunc_def)
  qed
  have "\<lceil>swp_closed_form 1000 1005 (6 / 1200)\<rceil> = 1"
    using swp_closed_form_1005 by simp
  moreover from this have "calculateSWP (Fin 1000) (Fin 1005) (Fin 6) =
           \<lparr>months = Fin 1, years = Fin 0, remainingMonths = Fin 1, totalWithdrawn = Fin 1005,
            isIndefinite = False\<rparr>"
    using calculateSWP_finite [of 1000 1005 6] by simp
  ultimately show ?thesis using first by simp
qed

theorem calculateSWP_ceiling_in_binary64_witness:
  "calculateSWP_binary64 Math_log (Fin 1000) (Fin 1005) (Fin 6) =
     \<lparr>months = Fin 2, years = Fin 0, remainingMonths = Fin 2, totalWithdrawn = Fin 2010,
      isIndefinite = False\<rparr>"
  using calculateSWP_ceiling_in_binary64 [of Math_log] by simp

subsection \<open>The loops, one iteration at a time\<close>

lemma year_loop_step:
  "y \<le> n \<Longrightarrow> year_loop P r t n y s = year_loop P r t n (Suc y) (year_body P r t y s)"
  by (subst year_loop.simps) simp

lemma year_loop_done: "\<not> y \<le> n \<Longrightarrow> year_loop P r t n y s = s"
  by (subst year_loop.simps) simp

lemma stp_loop_step:
  "m \<le> n \<Longrightarrow> stp_loop T dr er n m s = stp_loop T dr er n (Suc m) (month_body T dr er m s)"
  by (subst stp_loop.simps) simp

lemma stp_loop_done: "\<not> m \<le> n \<Longrightarrow> stp_loop T dr er n m s = s"
  by (subst stp_loop.simps) simp

subsection \<open>The last entry of a breakdown\<close>

text \<open>
  Every iteration pushes an entry that holds the corpus it leaves behind: rounded as
  the running corpus itself is in the top-up simulation, rounded for display only in
  the STP simulation.
\<close>

lemma year_body_last:
  "snd (snd (year_body P r t y s)) \<noteq> [] \<and>
   corpusAtEndOfYear (last (snd (snd (year_body P r t y s)))) = fst (year_body P r t y s)"
  by (simp add: year_body_def Let_def split: prod.splits)

lemma year_loop_last:
  assumes "y \<le> n \<or> (snd (snd s) \<noteq> [] \<and> corpusAtEndOfYear (last (snd (snd s))) = fst s)"
  shows "snd (snd (year_loop P r t n y s)) \<noteq> [] \<and>
         corpusAtEndOfYear (last (snd (snd (year_loop P r t n y s)))) = fst (year_loop P r t n y s)"
  using assms
proof (induction P r t n y s rule: year_loop.induct)
  case (1 P r t n y s)
  show ?case
  proof (cases "y \<le> n")
    case True
    then show ?thesis
      using "1.IH" [OF True] year_body_last [of P r t y s]
      by (simp add: year_loop_step)
  next
    case False
    then show ?thesis
      using "1.prems" by (simp add: year_loop_done)
  qed
qed

lemma month_body_last:
  "snd (snd (snd (month_body T dr er m s))) \<noteq> [] \<and>
   stp_entry.totalCorpus (last (snd (snd (snd (month_body T dr er m s)))))
     = Math_round (fst (month_body T dr er m s) + fst (snd (month_body T dr er m s)))"
  by (simp add: month_body_def Let_def split: prod.splits)

lemma stp_loop_last:
  assumes "m \<le> n \<or> (snd (snd (snd s)) \<noteq> [] \<and>
     stp_entry.totalCorpus (last (snd (snd (snd s)))) = Math_round (fst s + fst (snd s)))"
  shows "snd (snd (snd (stp_loop T dr er n m s))) \<noteq> [] \<and>
     stp_entry.totalCorpus (last (snd (snd (snd (stp_loop T dr er n m s)))))
       = Math_round (fst (stp_loop T dr er n m s) + fst (snd (stp_loop T dr er n m s)))"
  using assms
proof (induction T dr er n m s rule: stp_loop.induct)
  case (1 T dr er n m s)
  show ?case
  proof (cases "m \<le> n")
    case True
    then show ?thesis
      using "1.IH" [OF True] month_body_last [of T dr er m s]
      by (simp add: stp_loop_step)
  next
    case False
    then show ?thesis
      using "1.prems" by (simp add: stp_loop_done)
  qed
qed

text \<open>
  Claim C2, as the code has it. For at least one year, the last entry of
  \<^verbatim>\<open>yearlyBreakdown\<close> holds exactly the \<^verbatim>\<open>futureValue\<close> that \<^verbatim>\<open>calculateTopUpSIP\<close>
  returns. For at least one month, the last entry of the \<^verbatim>\<open>breakdown\<close> of
  \<^verbatim>\<open>calculateSTP\<close> holds \<^verbatim>\<open>Math.round\<close> of the returned \<^verbatim>\<open>totalCorpus\<close>, which is
  itself the unrounded sum of the two corpora.
\<close>

theorem last_entry_is_final_corpus:
  assumes "1 \<le> y" "1 \<le> m"
  shows "yearlyBreakdown (calculateTopUpSIP P a y t) \<noteq> []
     \<and> corpusAtEndOfYear (last (yearlyBreakdown (calculateTopUpSIP P a y t)))
         = futureValue (calculateTopUpSIP P a y t)
     \<and> breakdown (calculateSTP L T d e m) \<noteq> []
     \<and> stp_entry.totalCorpus (last (breakdown (calculateSTP L T d e m)))
         = Math_round (stp_result.totalCorpus (calculateSTP L T d e m))"
proof -
  have "1 \<le> y \<or> (snd (snd (Fin 0, Fin 0, [])) \<noteq> [] \<and>
      corpusAtEndOfYear (last (snd (snd (Fin 0, Fin 0, [])))) = fst (Fin 0, Fin 0, []))"
    using assms by simp
  from year_loop_last [OF this, of P "a / Fin 100 / Fin 12" t]
  have topup: "yearlyBreakdown (calculateTopUpSIP P a y t) \<noteq> []
     \<and> corpusAtEndOfYear (last (yearlyBreakdown (calculateTopUpSIP P a y t)))
         = futureValue (calculateTopUpSIP P a y t)"
    by (auto simp: calculateTopUpSIP_def Let_def split: prod.splits)
  have "1 \<le> m \<or> (snd (snd (snd (L, Fin 0, Fin 0, []))) \<noteq> [] \<and>
     stp_entry.totalCorpus (last (snd (snd (snd (L, Fin 0, Fin 0, [])))))
       = Math_round (fst (L, Fin 0, Fin 0, []) + fst (snd (L, Fin 0, Fin 0, []))))"
    using assms by simp
  from stp_loop_last [OF this, of T "d / Fin 100 / Fin 12" "e / Fin 100 / Fin 12"]
  have stp: "breakdown (calculateSTP L T d e m) \<noteq> []
     \<and> stp_entry.totalCorpus (last (breakdown (calculateSTP L T d e m)))
         = Math_round (stp_result.totalCorpus (calculateSTP L T d e m))"
    by (auto simp: calculateSTP_def Let_def split: prod.splits)
  from topup stp show ?thesis by simp
qed

theorem last_entry_is_final_corpus_witness:
  "corpusAtEndOfYear (last (yearlyBreakdown (calculateTopUpSIP (Fin 10000) (Fin 15) 5 (Fin 10))))
     = futureValue (calculateTopUpSIP (Fin 10000) (Fin 15) 5 (Fin 10))
   \<and> stp_entry.totalCorpus (last (breakdown (calculateSTP (Fin 100) (Fin 10) (Fin 6) (Fin 12) 1)))
     = Math_round (stp_result.totalCorpus (calculateSTP (Fin 100) (Fin 10) (Fin 6) (Fin 12) 1))"
  using last_entry_is_final_corpus [where y = 5 and m = 1 and P = "Fin 10000" and a = "Fin 15"
      and t = "Fin 10" and L = "Fin 100" and T = "Fin 10" and d = "Fin 6" and e = "Fin 12"]
  by simp

text \<open>
  Claim C2 as stated fails for \<^verbatim>\<open>calculateSTP\<close>: a lump sum of 100 with a transfer of
  10, rates 6 and 12, over one month ends with the corpora 90.5 and 10.1; the entry
  holds 101, the returned total is 100.6.
\<close>

theorem last_entry_counterexample:
  "stp_entry.totalCorpus (last (breakdown (calculateSTP (Fin 100) (Fin 10) (Fin 6) (Fin 12) 1)))
     \<noteq> stp_result.totalCorpus (calculateSTP (Fin 100) (Fin 10) (Fin 6) (Fin 12) 1)"
  by (simp add: calculateSTP_def Let_def stp_loop_step stp_loop_done month_body_def Math_min_def
      minus_number_def split: prod.splits)


subsection \<open>One month of the STP simulation\<close>

text \<open>On finite numbers the body of the loop is the following arithmetic on reals.\<close>

lemma month_body_Fin:
  "month_body (Fin T) (Fin dr) (Fin er) m (Fin D, Fin E, Fin X, bd) =
     (Fin (D * (1 + dr) - min T (D * (1 + dr))),
      Fin ((E + min T (D * (1 + dr))) * (1 + er)),
      Fin (X + min T (D * (1 + dr))),
      bd @ [\<lparr>month = num m,
              debtCorpus = Math_round (Fin (D * (1 + dr) - min T (D * (1 + dr)))),
              equityCorpus = Math_round (Fin ((E + min T (D * (1 + dr))) * (1 + er))),
              totalCorpus = Math_round (Fin (D * (1 + dr) - min T (D * (1 + dr))
                                               + (E + min T (D * (1 + dr))) * (1 + er)))\<rparr>])"
  by (simp add: month_body_def Let_def Math_min_def minus_number_def min_def)

text \<open>Simulating one month more is one more run of the body.\<close>

lemma stp_loop_Suc:
  "m \<le> Suc n \<Longrightarrow>
     stp_loop T dr er (Suc n) m s = month_body T dr er (Suc n) (stp_loop T dr er n m s)"
proof (induction T dr er n m s rule: stp_loop.induct)
  case (1 T dr er n m s)
  show ?case
  proof (cases "m \<le> n")
    case True
    then have "stp_loop T dr er (Suc n) m s
        = stp_loop T dr er (Suc n) (Suc m) (month_body T dr er m s)"
      by (simp add: stp_loop_step)
    also have "\<dots> = month_body T dr er (Suc n) (stp_loop T dr er n (Suc m) (month_body T dr er m s))"
      using "1.IH" [OF True] True by simp
    also have "\<dots> = month_body T dr er (Suc n) (stp_loop T dr er n m s)"
      using True by (simp add: stp_loop_step)
    finally show ?thesis .
  next
    case False
    with "1.prems" have m: "m = Suc n" by simp
    show ?thesis
      unfolding m by (simp add: stp_loop_step stp_loop_done)
  qed
qed

lemma stp_loop_Fin:
  "\<exists>D E X bd. stp_loop (Fin T) (Fin dr) (Fin er) n (Suc 0) (Fin L, Fin 0, Fin 0, [])
       = (Fin D, Fin E, Fin X, bd) \<and> (0 \<le> L \<longrightarrow> 0 \<le> D)"
proof (induction n)
  case 0
  show ?case by (simp add: stp_loop_done)
next
  case (Suc n)
  then obtain D E X bd where
    s: "stp_loop (Fin T) (Fin dr) (Fin er) n (Suc 0) (Fin L, Fin 0, Fin 0, []) = (Fin D, Fin E, Fin X, bd)"
    by blast
  have "0 \<le> D * (1 + dr) - min T (D * (1 + dr))" by simp
  then show ?case
    by (simp add: stp_loop_Suc s month_body_Fin)
qed

lemma calculateSTP_loop:
  assumes "stp_loop (Fin T) (Fin (d / 1200)) (Fin (e / 1200)) n (Suc 0) (Fin L, Fin 0, Fin 0, [])
             = (D, E, X, bd)"
  shows "stp_result.debtCorpus (calculateSTP (Fin L) (Fin T) (Fin d) (Fin e) n) = D
       \<and> stp_result.equityCorpus (calculateSTP (Fin L) (Fin T) (Fin d) (Fin e) n) = E
       \<and> totalTransferred (calculateSTP (Fin L) (Fin T) (Fin d) (Fin e) n) = X
       \<and> breakdown (calculateSTP (Fin L) (Fin T) (Fin d) (Fin e) n) = bd
       \<and> stp_result.totalCorpus (calculateSTP (Fin L) (Fin T) (Fin d) (Fin e) n) = D + E"
  using assms by (simp add: calculateSTP_def Let_def)

text \<open>
  Claim C7. For a lump sum, a transfer \<open>T\<close> and rates that are not negative, let
  \<open>D\<close>, \<open>E\<close> and \<open>X\<close> be the debt corpus, the equity corpus and the total
  transferred after \<open>k\<close> months. Then \<open>D \<ge> 0\<close>, and month \<open>k + 1\<close> first grows the
  debt corpus to \<open>D \<times> (1 + debtRate / 1200)\<close>, transfers the minimum of \<open>T\<close> and that
  amount, takes it from the debt corpus and adds it to the equity corpus, which then
  grows by \<open>1 + equityRate / 1200\<close>. The transfer and the debt corpus left are not
  negative, and the month adds one entry, the rounded corpora, to the breakdown.
\<close>

theorem calculateSTP_month:
  assumes "0 \<le> L" "0 \<le> T" "0 \<le> d" "0 \<le> e"
  shows "\<exists>D E X. stp_result.debtCorpus (calculateSTP (Fin L) (Fin T) (Fin d) (Fin e) k) = Fin D
     \<and> stp_result.equityCorpus (calculateSTP (Fin L) (Fin T) (Fin d) (Fin e) k) = Fin E
     \<and> totalTransferred (calculateSTP (Fin L) (Fin T) (Fin d) (Fin e) k) = Fin X
     \<and> 0 \<le> D
     \<and> stp_result.debtCorpus (calculateSTP (Fin L) (Fin T) (Fin d) (Fin e) (Suc k))
          = Fin (D * (1 + d / 1200) - min T (D * (1 + d / 1200)))
     \<and> stp_result.equityCorpus (calculateSTP (Fin L) (Fin T) (Fin d) (Fin e) (Suc k))
          = Fin ((E + min T (D * (1 + d / 1200))) * (1 + e / 1200))
     \<and> totalTransferred (calculateSTP (Fin L) (Fin T) (Fin d) (Fin e) (Suc k))
          = Fin (X + min T (D * (1 + d / 1200)))
     \<and> 0 \<le> min T (D * (1 + d / 1200))
     \<and> 0 \<le> D * (1 + d / 1200) - min T (D * (1 + d / 1200))
     \<and> breakdown (calculateSTP (Fin L) (Fin T) (Fin d) (Fin e) (Suc k))
          = breakdown (calculateSTP (Fin L) (Fin T) (Fin d) (Fin e) k) @
            [\<lparr>month = num (Suc k),
              debtCorpus = Math_round (Fin (D * (1 + d / 1200) - min T (D * (1 + d / 1200)))),
              equityCorpus = Math_round (Fin ((E + min T (D * (1 + d / 1200))) * (1 + e / 1200))),
              totalCorpus = Math_round (Fin (D * (1 + d / 1200) - min T (D * (1 + d / 1200))
                + (E + min T (D * (1 + d / 1200))) * (1 + e / 1200)))\<rparr>]"
proof -
  obtain D E X bd where
    s: "stp_loop (Fin T) (Fin (d / 1200)) (Fin (e / 1200)) k (Suc 0) (Fin L, Fin 0, Fin 0, [])
          = (Fin D, Fin E, Fin X, bd)" and D: "0 \<le> D"
    using stp_loop_Fin [of T "d / 1200" "e / 1200" k L] assms(1) by blast
  have s': "stp_loop (Fin T) (Fin (d / 1200)) (Fin (e / 1200)) (Suc k) (Suc 0) (Fin L, Fin 0, Fin 0, [])
      = month_body (Fin T) (Fin (d / 1200)) (Fin (e / 1200)) (Suc k) (Fin D, Fin E, Fin X, bd)"
    by (simp add: stp_loop_Suc s)
  have "0 \<le> D * (1 + d / 1200)" using D assms(3) by simp
  then have t: "0 \<le> min T (D * (1 + d / 1200))" using assms(2) by simp
  have g: "0 \<le> D * (1 + d / 1200) - min T (D * (1 + d / 1200))" by simp
  show ?thesis
    apply (rule exI [of _ D], rule exI [of _ E], rule exI [of _ X])
    using calculateSTP_loop [OF s] calculateSTP_loop [OF s' [unfolded month_body_Fin]] D t g
    by simp
qed

theorem calculateSTP_month_witness:
  "stp_result.debtCorpus (calculateSTP (Fin 100000) (Fin 200000) (Fin 7) (Fin 14) 0) = Fin 100000
   \<and> stp_result.debtCorpus (calculateSTP (Fin 100000) (Fin 200000) (Fin 7) (Fin 14) 1) = Fin 0"
proof -
  have zero: "stp_result.debtCorpus (calculateSTP (Fin 100000) (Fin 200000) (Fin 7) (Fin 14) 0)
      = Fin 100000"
    by (simp add: calculateSTP_def Let_def stp_loop_done)
  show ?thesis
    using calculateSTP_month [of 100000 200000 7 14 0] zero by auto
qed

subsection \<open>Lumpsum and CAGR\<close>

lemma calculateLumpsum_finite:
  "calculateLumpsum (Fin P) (Fin a) y =
     \<lparr>futureValue = Fin (P * (1 + a / 100) ^ y), totalInvested = Fin P,
      estimatedReturns = Fin (P * (1 + a / 100) ^ y - P)\<rparr>"
  by (simp add: calculateLumpsum_def Let_def Math_pow_num minus_number_def)

text \<open>
  The exponent \<open>1 / years\<close> is integral for one year only; for a base that is not
  negative, \<^verbatim>\<open>Math.pow\<close> with it undoes the power \<open>years\<close>.
\<close>

lemma integral_inverse_count:
  assumes "0 < y"
  shows "integral (1 / real y) = (y = 1)"
proof (cases "y = 1")
  case True
  then show ?thesis by (simp add: integral_def)
next
  case False
  with assms have "1 < real y" by simp
  then have "0 < 1 / real y" "1 / real y < 1" by simp_all
  then have "\<lfloor>1 / real y\<rfloor> = 0" by (simp add: floor_eq_iff)
  with \<open>0 < 1 / real y\<close> False show ?thesis by (simp add: integral_def)
qed

lemma Math_pow_root:
  assumes "0 \<le> x" "0 < y"
  shows "Math_pow (Fin (x ^ y)) (Fin (1 / real y)) = Fin x"
proof (cases "x = 0")
  case True
  then show ?thesis using assms by simp
next
  case False
  then have x: "0 < x" using assms by simp
  have e: "1 / real y \<noteq> 0" using assms by simp
  show ?thesis
  proof (cases "y = 1")
    case True
    then show ?thesis using x by (simp add: integral_def)
  next
    case False
    have "(x ^ y) powr (1 / real y) = (x powr real y) powr (1 / real y)"
      using x by (simp add: powr_realpow)
    also have "\<dots> = x powr (real y * (1 / real y))"
      by (simp only: powr_powr)
    also have "\<dots> = x" using x assms by simp
    finally have "(x ^ y) powr (1 / real y) = x" .
    then show ?thesis
      using x e False integral_inverse_count [OF assms(2)] by simp
  qed
qed

text \<open>
  Claim C5, as the code has it. For a principal \<open>P > 0\<close>, a rate \<open>r \<ge> -100\<close> and
  \<open>y > 0\<close> years, the CAGR of the lumpsum valuation is the rate: \<^verbatim>\<open>calculateCAGR\<close>
  applied to \<open>P\<close>, the future value of \<^verbatim>\<open>calculateLumpsum\<close> for \<open>P\<close>, \<open>r\<close>, \<open>y\<close>,
  and \<open>y\<close> returns \<open>r\<close>. The witness takes the rates 6, 10, 15, 20 and 25 over 10
  years.
\<close>

theorem calculateCAGR_inverts_lumpsum:
  assumes "0 < P" "- 100 \<le> r" "0 < y"
  shows "calculateCAGR (Fin P) (futureValue (calculateLumpsum (Fin P) (Fin r) y)) y = Fin r"
proof -
  have x: "0 \<le> 1 + r / 100" using assms by simp
  have "Fin (P * (1 + r / 100) ^ y) / Fin P = Fin ((1 + r / 100) ^ y)"
    using assms by simp
  moreover have "Fin 1 / num y = Fin (1 / real y)"
    using assms by (simp add: num_def)
  ultimately show ?thesis
    using Math_pow_root [OF x assms(3)]
    by (simp add: calculateCAGR_def calculateLumpsum_finite minus_number_def)
qed

theorem calculateCAGR_inverts_lumpsum_witness:
  "calculateCAGR (Fin 100000) (futureValue (calculateLumpsum (Fin 100000) (Fin 6) 10)) 10 = Fin 6
   \<and> calculateCAGR (Fin 100000) (futureValue (calculateLumpsum (Fin 100000) (Fin 10) 10)) 10 = Fin 10
   \<and> calculateCAGR (Fin 100000) (futureValue (calculateLumpsum (Fin 100000) (Fin 15) 10)) 10 = Fin 15
   \<and> calculateCAGR (Fin 100000) (futureValue (calculateLumpsum (Fin 100000) (Fin 20) 10)) 10 = Fin 20
   \<and> calculateCAGR (Fin 100000) (futureValue (calculateLumpsum (Fin 100000) (Fin 25) 10)) 10 = Fin 25"
  using calculateCAGR_inverts_lumpsum [of 100000 6 10]
    calculateCAGR_inverts_lumpsum [of 100000 10 10]
    calculateCAGR_inverts_lumpsum [of 100000 15 10]
    calculateCAGR_inverts_lumpsum [of 100000 20 10]
    calculateCAGR_inverts_lumpsum [of 100000 25 10]
  by simp

text \<open>
  Claim C5 as stated, for every rate, fails below \<open>-100\<close>, where the growth factor
  \<open>1 + r / 100\<close> is negative: at rate \<open>-200\<close> over 2 years the future value of 100
  is 100 again, and the CAGR is 0.
\<close>

theorem calculateCAGR_counterexample:
  "futureValue (calculateLumpsum (Fin 100) (Fin (- 200)) 2) = Fin 100
   \<and> calculateCAGR (Fin 100) (Fin 100) 2 = Fin 0
   \<and> calculateCAGR (Fin 100) (futureValue (calculateLumpsum (Fin 100) (Fin (- 200)) 2)) 2
        \<noteq> Fin (- 200)"
proof -
  have i: "\<not> integral (1 / 2)" by (simp add: integral_def)
  have fv: "futureValue (calculateLumpsum (Fin 100) (Fin (- 200)) 2) = Fin 100"
    by (simp add: calculateLumpsum_finite)
  have c: "calculateCAGR (Fin 100) (Fin 100) 2 = Fin 0"
    using i by (simp add: calculateCAGR_def num_def minus_number_def)
  show ?thesis by (simp add: fv c)
qed


subsection \<open>Monotonicity\<close>

text \<open>
  The annuity-due factor is the sum of the powers \<open>(1 + r)\<^sup>1, \<dots>, (1 + r)\<^sup>n\<close>, which
  grows with the rate and with the number of terms.
\<close>

lemma annuity_due_sum:
  fixes r :: real
  assumes "r \<noteq> 0"
  shows "((1 + r) ^ n - 1) / r * (1 + r) = (\<Sum>k<n. (1 + r) ^ Suc k)"
proof -
  have "(\<Sum>k<n. (1 + r) ^ k) = ((1 + r) ^ n - 1) / r"
    using assms geometric_sum [of "1 + r" n] by simp
  then have "((1 + r) ^ n - 1) / r * (1 + r) = (\<Sum>k<n. (1 + r) ^ k) * (1 + r)"
    by simp
  also have "\<dots> = (\<Sum>k<n. (1 + r) ^ Suc k)"
    by (simp add: sum_distrib_left mult.commute)
  finally show ?thesis .
qed

lemma calculateSIP_sum:
  assumes "a \<noteq> 0"
  shows "futureValue (calculateSIP (Fin P) (Fin a) y)
           = Fin (P * (\<Sum>k<12 * y. (1 + a / 1200) ^ Suc k))"
proof -
  have r: "a / 1200 \<noteq> 0" using assms by simp
  have "P * (((1 + a / 1200) ^ (12 * y) - 1) / (a / 1200)) * (1 + a / 1200)
      = P * ((((1 + a / 1200) ^ (12 * y) - 1) / (a / 1200)) * (1 + a / 1200))"
    by (simp only: mult.assoc)
  also have "\<dots> = P * (\<Sum>k<12 * y. (1 + a / 1200) ^ Suc k)"
    by (simp only: annuity_due_sum [OF r])
  finally show ?thesis
    using assms by (simp add: calculateSIP_finite)
qed

lemma annuity_sum_pos:
  fixes r :: real
  assumes "0 < r" "0 < n"
  shows "0 < (\<Sum>k<n. (1 + r) ^ Suc k)"
proof (rule sum_pos)
  show "finite {..<n}" by simp
  show "{..<n} \<noteq> {}" using assms by auto
  show "0 < (1 + r) ^ Suc k" for k using assms by simp
qed

lemma annuity_sum_rate:
  fixes r :: real
  assumes "0 < r" "r < r'" "0 < n"
  shows "(\<Sum>k<n. (1 + r) ^ Suc k) < (\<Sum>k<n. (1 + r') ^ Suc k)"
proof (rule sum_strict_mono)
  show "finite {..<n}" by simp
  show "{..<n} \<noteq> {}" using assms by auto
  show "(1 + r) ^ Suc k < (1 + r') ^ Suc k" for k
    using assms by (intro power_strict_mono) simp_all
qed

lemma annuity_sum_duration:
  fixes r :: real
  assumes "0 < r" "n < n'"
  shows "(\<Sum>k<n. (1 + r) ^ Suc k) < (\<Sum>k<n'. (1 + r) ^ Suc k)"
proof (rule lift_Suc_mono_less [OF _ assms(2)])
  show "(\<Sum>k<m. (1 + r) ^ Suc k) < (\<Sum>k<Suc m. (1 + r) ^ Suc k)" for m
    using assms(1) by simp
qed

lemma calculateSIP_rate:
  assumes "0 < P" "0 < y" "0 < a" "a < a'"
  shows "futureValue (calculateSIP (Fin P) (Fin a) y) < futureValue (calculateSIP (Fin P) (Fin a') y)"
proof -
  have "(\<Sum>k<12 * y. (1 + a / 1200) ^ Suc k) < (\<Sum>k<12 * y. (1 + a' / 1200) ^ Suc k)"
    using assms by (intro annuity_sum_rate) simp_all
  then show ?thesis using assms by (simp add: calculateSIP_sum)
qed

lemma calculateSIP_contribution:
  assumes "0 < y" "0 < a" "P < P'"
  shows "futureValue (calculateSIP (Fin P) (Fin a) y) < futureValue (calculateSIP (Fin P') (Fin a) y)"
proof -
  have "0 < (\<Sum>k<12 * y. (1 + a / 1200) ^ Suc k)"
    using assms by (intro annuity_sum_pos) simp_all
  then show ?thesis using assms by (simp add: calculateSIP_sum)
qed

lemma calculateSIP_duration:
  assumes "0 < P" "0 < a" "y < y'"
  shows "futureValue (calculateSIP (Fin P) (Fin a) y) < futureValue (calculateSIP (Fin P) (Fin a) y')"
proof -
  have "(\<Sum>k<12 * y. (1 + a / 1200) ^ Suc k) < (\<Sum>k<12 * y'. (1 + a / 1200) ^ Suc k)"
    using assms by (intro annuity_sum_duration) simp_all
  then show ?thesis using assms by (simp add: calculateSIP_sum)
qed

lemma calculateLumpsum_rate:
  assumes "0 < P" "0 < y" "0 \<le> a" "a < a'"
  shows "futureValue (calculateLumpsum (Fin P) (Fin a) y)
           < futureValue (calculateLumpsum (Fin P) (Fin a') y)"
proof -
  have "(1 + a / 100) ^ y < (1 + a' / 100) ^ y"
    using assms by (intro power_strict_mono) simp_all
  then show ?thesis using assms by (simp add: calculateLumpsum_finite)
qed

lemma calculateLumpsum_principal:
  assumes "0 \<le> a" "P < P'"
  shows "futureValue (calculateLumpsum (Fin P) (Fin a) y)
           < futureValue (calculateLumpsum (Fin P') (Fin a) y)"
proof -
  have "0 < (1 + a / 100) ^ y" using assms by simp
  then show ?thesis using assms by (simp add: calculateLumpsum_finite)
qed

lemma calculateLumpsum_duration:
  assumes "0 < P" "0 < a" "y < y'"
  shows "futureValue (calculateLumpsum (Fin P) (Fin a) y)
           < futureValue (calculateLumpsum (Fin P) (Fin a) y')"
proof -
  have "(1 + a / 100) ^ y < (1 + a / 100) ^ y'"
    using assms by (intro power_strict_increasing) simp_all
  then show ?thesis using assms by (simp add: calculateLumpsum_finite)
qed

lemma calculateInflationAdjusted_finite:
  assumes "0 \<le> i"
  shows "calculateInflationAdjusted (Fin N) (Fin i) y =
     \<lparr>inflationAdjustedValue = Fin (N / (1 + i / 100) ^ y),
      purchasingPowerLoss = Fin (N - N / (1 + i / 100) ^ y)\<rparr>"
proof -
  have "(1 + i / 100) ^ y \<noteq> 0" using assms by simp
  then show ?thesis
    by (simp add: calculateInflationAdjusted_def Let_def Math_pow_num minus_number_def)
qed

lemma calculateInflationAdjusted_rate:
  assumes "0 < N" "0 < y" "0 \<le> i" "i < i'"
  shows "inflationAdjustedValue (calculateInflationAdjusted (Fin N) (Fin i') y)
           < inflationAdjustedValue (calculateInflationAdjusted (Fin N) (Fin i) y)"
proof -
  have "(1 + i / 100) ^ y < (1 + i' / 100) ^ y"
    using assms by (intro power_strict_mono) simp_all
  moreover have "0 < (1 + i / 100) ^ y" using assms by simp
  ultimately have "N / (1 + i' / 100) ^ y < N / (1 + i / 100) ^ y"
    using assms(1) by (simp add: frac_less2)
  then show ?thesis using assms by (simp add: calculateInflationAdjusted_finite)
qed

lemma calculateInflationAdjusted_duration:
  assumes "0 < N" "0 < i" "y < y'"
  shows "inflationAdjustedValue (calculateInflationAdjusted (Fin N) (Fin i) y')
           < inflationAdjustedValue (calculateInflationAdjusted (Fin N) (Fin i) y)"
proof -
  have "(1 + i / 100) ^ y < (1 + i / 100) ^ y'"
    using assms by (intro power_strict_increasing) simp_all
  moreover have "0 < (1 + i / 100) ^ y" using assms by simp
  ultimately have "N / (1 + i / 100) ^ y' < N / (1 + i / 100) ^ y"
    using assms(1) by (simp add: frac_less2)
  then show ?thesis using assms by (simp add: calculateInflationAdjusted_finite)
qed

text \<open>
  Claim C8, as the code has it. Fix \<open>P > 0\<close>, \<open>y > 0\<close> years and a nominal value
  \<open>N > 0\<close>. For \<^verbatim>\<open>calculateSIP\<close> at a rate above zero, a higher rate, a higher
  contribution and a longer duration each give a strictly higher future value. For
  \<^verbatim>\<open>calculateLumpsum\<close> a higher rate and a higher principal do so from every rate
  \<open>\<ge> 0\<close>, a longer duration at every rate \<open>> 0\<close>. For
  \<^verbatim>\<open>calculateInflationAdjusted\<close> a higher inflation rate gives a strictly lower
  adjusted value from every rate \<open>\<ge> 0\<close>, a longer duration at every rate \<open>> 0\<close>.
  The comparison is \<^verbatim>\<open><\<close> on numbers.
\<close>

theorem futureValue_monotone:
  assumes "0 < P" "0 < y" "0 < N"
  shows "(0 < a \<longrightarrow> a < a' \<longrightarrow>
            futureValue (calculateSIP (Fin P) (Fin a) y)
              < futureValue (calculateSIP (Fin P) (Fin a') y))
       \<and> (0 < a \<longrightarrow> P < P' \<longrightarrow>
            futureValue (calculateSIP (Fin P) (Fin a) y)
              < futureValue (calculateSIP (Fin P') (Fin a) y))
       \<and> (0 < a \<longrightarrow> y < y' \<longrightarrow>
            futureValue (calculateSIP (Fin P) (Fin a) y)
              < futureValue (calculateSIP (Fin P) (Fin a) y'))
       \<and> (0 \<le> a \<longrightarrow> a < a' \<longrightarrow>
            futureValue (calculateLumpsum (Fin P) (Fin a) y)
              < futureValue (calculateLumpsum (Fin P) (Fin a') y))
       \<and> (0 \<le> a \<longrightarrow> P < P' \<longrightarrow>
            futureValue (calculateLumpsum (Fin P) (Fin a) y)
              < futureValue (calculateLumpsum (Fin P') (Fin a) y))
       \<and> (0 < a \<longrightarrow> y < y' \<longrightarrow>
            futureValue (calculateLumpsum (Fin P) (Fin a) y)
              < futureValue (calculateLumpsum (Fin P) (Fin a) y'))
       \<and> (0 \<le> a \<longrightarrow> a < a' \<longrightarrow>
            inflationAdjustedValue (calculateInflationAdjusted (Fin N) (Fin a') y)
              < inflationAdjustedValue (calculateInflationAdjusted (Fin N) (Fin a) y))
       \<and> (0 < a \<longrightarrow> y < y' \<longrightarrow>
            inflationAdjustedValue (calculateInflationAdjusted (Fin N) (Fin a) y')
              < inflationAdjustedValue (calculateInflationAdjusted (Fin N) (Fin a) y))"
  using assms
    calculateSIP_rate [of P y a a'] calculateSIP_contribution [of y a P P']
    calculateSIP_duration [of P a y y']
    calculateLumpsum_rate [of P y a a'] calculateLumpsum_principal [of a P P' y]
    calculateLumpsum_duration [of P a y y']
    calculateInflationAdjusted_rate [of N y a a'] calculateInflationAdjusted_duration [of N a y y']
  by blast

theorem futureValue_monotone_witness:
  "futureValue (calculateSIP (Fin 5000) (Fin 8) 10) < futureValue (calculateSIP (Fin 5000) (Fin 15) 10)
   \<and> futureValue (calculateSIP (Fin 5000) (Fin 8) 10) < futureValue (calculateSIP (Fin 6000) (Fin 8) 10)
   \<and> futureValue (calculateSIP (Fin 5000) (Fin 8) 10) < futureValue (calculateSIP (Fin 5000) (Fin 8) 20)
   \<and> futureValue (calculateLumpsum (Fin 5000) (Fin 8) 10)
        < futureValue (calculateLumpsum (Fin 5000) (Fin 15) 10)
   \<and> futureValue (calculateLumpsum (Fin 5000) (Fin 8) 10)
        < futureValue (calculateLumpsum (Fin 6000) (Fin 8) 10)
   \<and> futureValue (calculateLumpsum (Fin 5000) (Fin 8) 10)
        < futureValue (calculateLumpsum (Fin 5000) (Fin 8) 20)
   \<and> inflationAdjustedValue (calculateInflationAdjusted (Fin 1000000) (Fin 15) 10)
        < inflationAdjustedValue (calculateInflationAdjusted (Fin 1000000) (Fin 8) 10)
   \<and> inflationAdjustedValue (calculateInflationAdjusted (Fin 1000000) (Fin 8) 20)
        < inflationAdjustedValue (calculateInflationAdjusted (Fin 1000000) (Fin 8) 10)"
  using futureValue_monotone [of 5000 10 1000000 8 15 6000 20]
  by simp

text \<open>
  Claim C8 as stated, with any rate \<open>\<ge> 0\<close>, fails at rate 0 for the duration: a
  lumpsum of 100 at rate 0 is worth 100 after one year and after two.
\<close>

theorem futureValue_monotone_counterexample:
  "\<not> futureValue (calculateLumpsum (Fin 100) (Fin 0) 1)
       < futureValue (calculateLumpsum (Fin 100) (Fin 0) 2)"
  by (simp add: calculateLumpsum_finite)

subsection \<open>Returns are the future value less the amount invested\<close>

text \<open>On finite inputs the loops of the top-up simulation keep their variables finite.\<close>

lemma month_loop_step:
  "m < 12 \<Longrightarrow> month_loop sip r m (c, i) = month_loop sip r (Suc m) ((c + sip) * (Fin 1 + r), i + sip)"
  by (subst month_loop.simps) simp

lemma month_loop_done: "\<not> m < 12 \<Longrightarrow> month_loop sip r m s = s"
  by (subst month_loop.simps) simp

lemma month_loop_Fin:
  "\<exists>c' i'. month_loop (Fin p) (Fin r) m (Fin c, Fin i) = (Fin c', Fin i')"
proof (induction "12 - m" arbitrary: m c i)
  case 0
  then show ?case by (simp add: month_loop_done)
next
  case (Suc k)
  then have m: "m < 12" and k: "k = 12 - Suc m" by simp_all
  show ?case
    using Suc.hyps(1) [OF k, of "(c + p) * (1 + r)" "i + p"] m
    by (simp add: month_loop_step)
qed

lemma year_body_Fin:
  assumes "1 \<le> y"
  shows "\<exists>c' i' bd'. year_body (Fin P) (Fin r) (Fin t) y (Fin c, Fin i, bd) = (Fin c', Fin i', bd')"
proof -
  have "num y - Fin 1 = num (y - 1)"
    using assms by (simp add: num_def minus_number_def of_nat_diff)
  then have pw: "Math_pow (Fin (1 + t / 100)) (num y - Fin 1) = Fin ((1 + t / 100) ^ (y - 1))"
    by (simp add: Math_pow_num)
  obtain c' i' where
    "month_loop (Fin (of_int \<lfloor>P * (1 + t / 100) ^ (y - 1) + 1 / 2\<rfloor>)) (Fin r) 0 (Fin c, Fin 0)
       = (Fin c', Fin i')"
    using month_loop_Fin by blast
  then show ?thesis
    by (simp add: year_body_def Let_def pw)
qed

lemma year_loop_Fin:
  assumes "1 \<le> y"
  shows "\<exists>c' i' bd'. year_loop (Fin P) (Fin r) (Fin t) n y (Fin c, Fin i, bd) = (Fin c', Fin i', bd')"
  using assms
proof (induction "Suc n - y" arbitrary: y c i bd)
  case 0
  then show ?case by (simp add: year_loop_done)
next
  case (Suc k)
  then have y: "y \<le> n" and k: "k = Suc n - Suc y" by simp_all
  obtain c' i' bd' where "year_body (Fin P) (Fin r) (Fin t) y (Fin c, Fin i, bd) = (Fin c', Fin i', bd')"
    using year_body_Fin [OF Suc.prems] by blast
  then show ?case
    using Suc.hyps(1) [OF k, of c' i' bd'] y by (simp add: year_loop_step)
qed

text \<open>
  On finite inputs the field \<^verbatim>\<open>estimatedReturns\<close> strictly equals \<^verbatim>\<open>futureValue\<close>
  less \<^verbatim>\<open>totalInvested\<close> in the results of \<^verbatim>\<open>calculateLumpsum\<close> and
  \<^verbatim>\<open>calculateTopUpSIP\<close>, and of \<^verbatim>\<open>calculateSIP\<close> at every rate but zero.
\<close>

lemma estimatedReturns_strict_eq:
  "a \<noteq> 0 \<Longrightarrow> strict_eq (estimatedReturns (calculateSIP (Fin P) (Fin a) y))
       (futureValue (calculateSIP (Fin P) (Fin a) y) - totalInvested (calculateSIP (Fin P) (Fin a) y))"
  "strict_eq (estimatedReturns (calculateLumpsum (Fin P) (Fin a) y))
       (futureValue (calculateLumpsum (Fin P) (Fin a) y)
          - totalInvested (calculateLumpsum (Fin P) (Fin a) y))"
  "strict_eq (estimatedReturns (calculateTopUpSIP (Fin P) (Fin a) y (Fin t)))
       (futureValue (calculateTopUpSIP (Fin P) (Fin a) y (Fin t))
          - totalInvested (calculateTopUpSIP (Fin P) (Fin a) y (Fin t)))"
proof -
  show "a \<noteq> 0 \<Longrightarrow> strict_eq (estimatedReturns (calculateSIP (Fin P) (Fin a) y))
       (futureValue (calculateSIP (Fin P) (Fin a) y) - totalInvested (calculateSIP (Fin P) (Fin a) y))"
    by (simp add: calculateSIP_finite strict_eq_def minus_number_def)
  show "strict_eq (estimatedReturns (calculateLumpsum (Fin P) (Fin a) y))
       (futureValue (calculateLumpsum (Fin P) (Fin a) y)
          - totalInvested (calculateLumpsum (Fin P) (Fin a) y))"
    by (simp add: calculateLumpsum_finite strict_eq_def minus_number_def)
  obtain c i bd where
    "year_loop (Fin P) (Fin (a / 1200)) (Fin t) y (Suc 0) (Fin 0, Fin 0, []) = (Fin c, Fin i, bd)"
    using year_loop_Fin [of "Suc 0" P "a / 1200" t y 0 0 "[]"] by auto
  then show "strict_eq (estimatedReturns (calculateTopUpSIP (Fin P) (Fin a) y (Fin t)))
       (futureValue (calculateTopUpSIP (Fin P) (Fin a) y (Fin t))
          - totalInvested (calculateTopUpSIP (Fin P) (Fin a) y (Fin t)))"
    by (simp add: calculateTopUpSIP_def Let_def strict_eq_def minus_number_def)
qed

text \<open>
  Claim C6 has \<^verbatim>\<open>estimatedReturns\<close> equal to \<^verbatim>\<open>futureValue\<close> less \<^verbatim>\<open>totalInvested\<close>
  for every valid input. At rate zero \<^verbatim>\<open>calculateSIP\<close> returns NaN for the future value
  (the missing branch of claim C1), so the returns and the difference are NaN, and
  NaN equals nothing: the two are not equal, within no tolerance.
\<close>

theorem estimatedReturns_NaN_at_zero_rate:
  "estimatedReturns (calculateSIP (Fin 5000) (Fin 0) 10) = NaN
   \<and> futureValue (calculateSIP (Fin 5000) (Fin 0) 10)
        - totalInvested (calculateSIP (Fin 5000) (Fin 0) 10) = NaN
   \<and> \<not> strict_eq (estimatedReturns (calculateSIP (Fin 5000) (Fin 0) 10))
        (futureValue (calculateSIP (Fin 5000) (Fin 0) 10)
           - totalInvested (calculateSIP (Fin 5000) (Fin 0) 10))"
  by (simp add: calculateSIP_rate_zero strict_eq_def minus_number_def)

subsection \<open>Formatting\<close>

text \<open>The digits of a number: its decimal representation, without a leading zero.\<close>

lemma digit_code: "d < 10 \<Longrightarrow> of_char (digit d) = 48 + d"
proof -
  assume "d < 10"
  then consider "d = 0" | "d = 1" | "d = 2" | "d = 3" | "d = 4" | "d = 5" | "d = 6" | "d = 7"
    | "d = 8" | "d = 9" by (auto simp: less_Suc_eq numeral_eq_Suc)
  then show ?thesis by cases (simp_all add: digit_def)
qed

lemma digit_not_comma: "d < 10 \<Longrightarrow> digit d \<noteq> CHR '',''"
  using digit_code [of d] by auto

lemma digits_value: "foldl (\<lambda>a c. 10 * a + (of_char c - 48)) 0 (digits n) = n"
proof (induction n rule: digits.induct)
  case (1 n)
  show ?case
  proof (cases "n < 10")
    case True
    then show ?thesis by (subst digits.simps) (simp add: digit_code)
  next
    case False
    then show ?thesis
      using "1.IH" by (subst digits.simps) (simp add: digit_code)
  qed
qed

lemma digits_no_comma: "CHR '','' \<notin> set (digits n)"
proof (induction n rule: digits.induct)
  case (1 n)
  show ?case
  proof (cases "n < 10")
    case True
    then show ?thesis by (subst digits.simps) (simp add: digit_not_comma [THEN not_sym])
  next
    case False
    then show ?thesis
      using "1.IH" by (subst digits.simps) (simp add: digit_not_comma [THEN not_sym])
  qed
qed

lemma digits_nonempty: "digits n \<noteq> []"
  by (subst digits.simps) simp

lemma digits_leading: "0 < n \<Longrightarrow> hd (digits n) \<noteq> CHR ''0''"
proof (induction n rule: digits.induct)
  case (1 n)
  show ?case
  proof (cases "n < 10")
    case True
    with "1.prems" consider "n = 1" | "n = 2" | "n = 3" | "n = 4" | "n = 5" | "n = 6" | "n = 7"
      | "n = 8" | "n = 9" by (auto simp: less_Suc_eq numeral_eq_Suc)
    then show ?thesis by cases (simp_all add: digits.simps digit_def)
  next
    case False
    then have "0 < n div 10" by simp
    then show ?thesis
      using "1.IH" [OF False] False digits_nonempty [of "n div 10"]
      by (subst digits.simps) simp
  qed
qed

lemma pairs_filter: "CHR '','' \<notin> set cs \<Longrightarrow> filter (\<lambda>c. c \<noteq> CHR '','') (pairs cs) = cs"
  by (induction cs rule: pairs.induct) auto

lemma grouping_filter:
  assumes "CHR '','' \<notin> set ds"
  shows "filter (\<lambda>c. c \<noteq> CHR '','') (indian_grouping ds) = ds"
proof (cases "length ds \<le> 3")
  case True
  then show ?thesis using assms by (auto simp: indian_grouping_def filter_id_conv)
next
  case False
  have t: "CHR '','' \<notin> set (take 3 (rev ds))" "CHR '','' \<notin> set (drop 3 (rev ds))"
    using assms by (auto dest: in_set_takeD in_set_dropD)
  have "filter (\<lambda>c. c \<noteq> CHR '','') (take 3 (rev ds) @ CHR '','' # pairs (drop 3 (rev ds)))
      = filter (\<lambda>c. c \<noteq> CHR '','') (take 3 (rev ds))
        @ filter (\<lambda>c. c \<noteq> CHR '','') (pairs (drop 3 (rev ds)))"
    by simp
  also have "\<dots> = take 3 (rev ds) @ drop 3 (rev ds)"
  proof -
    have p: "filter (\<lambda>c. c \<noteq> CHR '','') (pairs (drop 3 (rev ds))) = drop 3 (rev ds)"
      using t(2) by (rule pairs_filter)
    have q: "filter (\<lambda>c. c \<noteq> CHR '','') (take 3 (rev ds)) = take 3 (rev ds)"
      using t(1) by (auto simp: filter_id_conv)
    show ?thesis by (simp only: p q)
  qed
  also have "\<dots> = rev ds" by simp
  finally have "filter (\<lambda>c. c \<noteq> CHR '','')
      (rev (take 3 (rev ds) @ CHR '','' # pairs (drop 3 (rev ds)))) = ds"
    by (simp only: rev_filter [symmetric] rev_rev_ident)
  then show ?thesis using False by (simp add: indian_grouping_def Let_def)
qed

lemma grouping_short: "length ds \<le> 3 \<Longrightarrow> indian_grouping ds = ds"
  by (simp add: indian_grouping_def)

lemma grouping_last_three:
  "ds \<noteq> [] \<Longrightarrow>
     indian_grouping (ds @ [a, b, c]) = rev (pairs (rev ds)) @ CHR '','' # [a, b, c]"
  by (simp add: indian_grouping_def)

lemma pairs_short: "length ds \<le> 2 \<Longrightarrow> rev (pairs (rev ds)) = ds"
proof -
  assume "length ds \<le> 2"
  then have "length (rev ds) \<le> 2" by simp
  then have "pairs (rev ds) = rev ds"
    by (cases "rev ds" rule: pairs.cases) simp_all
  then show ?thesis by simp
qed

lemma pairs_last_two:
  "ds \<noteq> [] \<Longrightarrow> rev (pairs (rev (ds @ [a, b]))) = rev (pairs (rev ds)) @ CHR '','' # [a, b]"
  by (cases "rev ds") simp_all


lemma digits_are_digits: "set (digits n) \<subseteq> set ''0123456789''"
proof (induction n rule: digits.induct)
  case (1 n)
  have d: "digit k \<in> set ''0123456789''" if "k < 10" for k
    using that unfolding digit_def by (intro nth_mem) simp
  show ?case
  proof (cases "n < 10")
    case True
    then show ?thesis using d [of n] by (subst digits.simps) simp
  next
    case False
    then show ?thesis
      using "1.IH" d [of "n mod 10"] by (subst digits.simps) simp
  qed
qed

lemma formatINR_examples:
  "formatINR 100000 = ''Rs. 1,00,000''"
  "formatINR 1200000 = ''Rs. 12,00,000''"
  "formatINR (116169538 / 100) = ''Rs. 11,61,695''"
  "formatINR 0 = ''Rs. 0''"
proof -
  have f: "\<lfloor>(100000::real) + 1 / 2\<rfloor> = 100000" "\<lfloor>(1200000::real) + 1 / 2\<rfloor> = 1200000"
    "\<lfloor>(116169538 / 100 :: real) + 1 / 2\<rfloor> = 1161695" "\<lfloor>(0::real) + 1 / 2\<rfloor> = 0"
    by linarith+
  show "formatINR 100000 = ''Rs. 1,00,000''"
    by (simp add: formatINR_def f toLocaleString_en_IN_def indian_grouping_def digits.simps digit_def)
  show "formatINR 1200000 = ''Rs. 12,00,000''"
    by (simp add: formatINR_def f toLocaleString_en_IN_def indian_grouping_def digits.simps digit_def)
  show "formatINR (116169538 / 100) = ''Rs. 11,61,695''"
    using f(3)
    by (simp add: formatINR_def toLocaleString_en_IN_def indian_grouping_def digits.simps digit_def)
  show "formatINR 0 = ''Rs. 0''"
    by (simp add: formatINR_def toLocaleString_en_IN_def indian_grouping_def digits.simps digit_def)
qed

text \<open>
  Claim C9, as the code has it. For every amount below \<open>2\<^sup>5\<^sup>3\<close> in magnitude,
  \<^verbatim>\<open>formatINR\<close> writes \<^verbatim>\<open>"Rs. "\<close>, a minus sign for a negative amount, and the digits
  of the amount rounded to the nearest whole number (a tie goes up), grouped by the
  Indian convention. The digits are the decimal representation, without a leading
  zero. The grouping adds commas only; up to three digits stay as they are, otherwise
  a comma stands before the last three digits and before every pair of digits to
  their left. So 100000 gives \<^verbatim>\<open>"Rs. 1,00,000"\<close>, 1200000 gives \<^verbatim>\<open>"Rs. 12,00,000"\<close>,
  1161695.38 gives \<^verbatim>\<open>"Rs. 11,61,695"\<close> and 0 gives \<^verbatim>\<open>"Rs. 0"\<close>. \<^verbatim>\<open>formatPercent\<close>
  appends \<^verbatim>\<open>"%"\<close> to its argument written as a string.
\<close>

theorem formatINR_indian_grouping:
  "(\<bar>v\<bar> < 2 ^ 53 \<longrightarrow>
      formatINR v = ''Rs. '' @ (if v < 0 then ''-'' else [])
                      @ indian_grouping (digits (nat \<bar>\<lfloor>v + 1 / 2\<rfloor>\<bar>)))
   \<and> foldl (\<lambda>a c. 10 * a + (of_char c - 48)) 0 (digits n) = n
   \<and> set (digits n) \<subseteq> set ''0123456789''
   \<and> (0 < n \<longrightarrow> hd (digits n) \<noteq> CHR ''0'')
   \<and> filter (\<lambda>c. c \<noteq> CHR '','') (indian_grouping (digits n)) = digits n
   \<and> (length ds \<le> 3 \<longrightarrow> indian_grouping ds = ds)
   \<and> (ds \<noteq> [] \<longrightarrow>
        indian_grouping (ds @ [a, b, c]) = rev (pairs (rev ds)) @ CHR '','' # [a, b, c])
   \<and> (length ds \<le> 2 \<longrightarrow> rev (pairs (rev ds)) = ds)
   \<and> (ds \<noteq> [] \<longrightarrow>
        rev (pairs (rev (ds @ [a, b]))) = rev (pairs (rev ds)) @ CHR '','' # [a, b])
   \<and> formatINR 100000 = ''Rs. 1,00,000''
   \<and> formatINR 1200000 = ''Rs. 12,00,000''
   \<and> formatINR (116169538 / 100) = ''Rs. 11,61,695''
   \<and> formatINR 0 = ''Rs. 0''
   \<and> formatPercent ToString x = ToString x @ ''%''"
  using digits_value [of n] digits_are_digits [of n] digits_leading [of n]
    grouping_filter [OF digits_no_comma, of n] grouping_short [of ds]
    grouping_last_three [of ds a b c] pairs_short [of ds] pairs_last_two [of ds a b]
    formatINR_examples
  by (simp add: formatINR_def toLocaleString_en_IN_def formatPercent_def)

theorem formatINR_indian_grouping_witness:
  "formatINR (- 1234567) = ''Rs. -12,34,567''
   \<and> formatINR (3 / 2) = ''Rs. 2''
   \<and> indian_grouping ''1234567'' = ''12,34,567''
   \<and> indian_grouping ''999'' = ''999''
   \<and> hd (digits 1234567) \<noteq> CHR ''0''"
proof -
  have d: "digits 1234567 = ''1234567''" "digits 2 = ''2''"
    by (simp_all add: digits.simps digit_def)
  have f: "\<lfloor>(- 1234567 :: real) + 1 / 2\<rfloor> = - 1234567" "\<lfloor>(3 / 2 :: real) + 1 / 2\<rfloor> = 2"
    by linarith+
  have p2: "rev (pairs (rev ''12'')) = ''12''"
    using formatINR_indian_grouping
      [of 0 0 "''12''" "CHR ''3''" "CHR ''4''" "CHR ''5''" "\<lambda>u::unit. []" "()"]
    by simp
  have p4: "rev (pairs (rev ''1234'')) = ''12,34''"
    using formatINR_indian_grouping
      [of 0 0 "''12''" "CHR ''3''" "CHR ''4''" "CHR ''5''" "\<lambda>u::unit. []" "()"] p2
    by simp
  have g7: "indian_grouping ''1234567'' = ''12,34,567''"
    using formatINR_indian_grouping
      [of 0 0 "''1234''" "CHR ''5''" "CHR ''6''" "CHR ''7''" "\<lambda>u::unit. []" "()"] p4
    by simp
  have g3: "indian_grouping ''999'' = ''999''"
    using formatINR_indian_grouping
      [of 0 0 "''999''" "CHR ''5''" "CHR ''6''" "CHR ''7''" "\<lambda>u::unit. []" "()"]
    by simp
  have g1: "indian_grouping ''2'' = ''2''"
    using formatINR_indian_grouping
      [of 0 0 "''2''" "CHR ''5''" "CHR ''6''" "CHR ''7''" "\<lambda>u::unit. []" "()"]
    by simp
  have neg: "formatINR (- 1234567) = ''Rs. -12,34,567''"
    using formatINR_indian_grouping
      [of "- 1234567" 1234567 "[]" "CHR ''5''" "CHR ''6''" "CHR ''7''" "\<lambda>u::unit. []" "()"]
      f(1) d(1) g7
    by simp
  have half: "formatINR (3 / 2) = ''Rs. 2''"
    using formatINR_indian_grouping
      [of "3 / 2" 2 "[]" "CHR ''5''" "CHR ''6''" "CHR ''7''" "\<lambda>u::unit. []" "()"]
      f(2) d(2) g1
    by simp
  have lead: "hd (digits 1234567) \<noteq> CHR ''0''"
    using formatINR_indian_grouping
      [of 0 1234567 "[]" "CHR ''5''" "CHR ''6''" "CHR ''7''" "\<lambda>u::unit. []" "()"]
    by simp
  from neg half g7 g3 lead show ?thesis by simp
qed

text \<open>
  Claim C9 as stated has 0 formatted as \<^verbatim>\<open>"0"\<close>; \<^verbatim>\<open>formatINR\<close> puts the prefix
  before it.
\<close>

theorem formatINR_zero_counterexample: "formatINR 0 \<noteq> ''0''"
  by (simp add: formatINR_examples)

end
